theory Spec2Isabelle
  imports Main "HOL-Library.Multiset"
begin

section \<open>The chat proxy of server.js\<close>

text \<open>
  A shallow embedding of the \<open>POST /chat\<close> handler of \<open>src/server.js\<close>. The handler is an
  \<open>async\<close> function: it runs in segments that end at each \<open>await\<close> (the receipt verifier,
  \<open>fetch\<close>, and the reading of the upstream body). Every segment is a function here; the
  whole handler is their composition, and concurrent requests are interleavings of segments.

  JavaScript strings are modelled as \<open>string\<close> with 8-bit characters read as code units below
  256; numbers that the handler computes with (parsed epoch milliseconds, usage counts) are
  integers, exact below \<open>2^53\<close>, with \<open>None\<close> standing for \<open>NaN\<close>. \<open>console.error\<close> has no
  effect on the response or the store and is left out.
\<close>

subsection \<open>JSON values and property access\<close>

datatype json =
    JNull
  | JBool bool
  | JNum int
  | JStr string
  | JArr "json list"
  | JObj "(string \<times> json) list"

text \<open>A JavaScript value that came out of a JSON document, or \<open>undefined\<close>.\<close>

datatype jsval = Undefined | Val json

text \<open>The result of an expression that may throw (every throw in the handler is a TypeError
  or a rejected promise; the handler never inspects which).\<close>

datatype 'a completion = Thrown | Normal 'a

text \<open>
  \<open>j.k\<close> on a value that is neither \<open>null\<close> nor \<open>undefined\<close>, for the property names the
  handler reads (\<open>receipt\<close>, \<open>prompt\<close>, \<open>model\<close>, \<open>choices\<close>, \<open>message\<close>, \<open>content\<close>,
  and \<open>latest_receipt_info\<close>, \<open>product_id\<close>, \<open>expires_date_ms\<close>, \<open>purchase_date_ms\<close> in
  step 3): none of them is a built-in property of a string, number, boolean or array, so only
  an object's own properties (a list with one pair for each key) can supply them.
\<close>

fun get_prop :: "json \<Rightarrow> string \<Rightarrow> jsval" where
  "get_prop (JObj kvs) k = (case map_of kvs k of None \<Rightarrow> Undefined | Some v \<Rightarrow> Val v)"
| "get_prop _ k = Undefined"

text \<open>\<open>j[0]\<close>: the first element of an array, the first code unit of a string, the property
  \<open>"0"\<close> of an object.\<close>

fun index0 :: "json \<Rightarrow> jsval" where
  "index0 (JArr xs) = (case xs of [] \<Rightarrow> Undefined | x # _ \<Rightarrow> Val x)"
| "index0 (JStr s) = (case s of [] \<Rightarrow> Undefined | c # _ \<Rightarrow> Val (JStr [c]))"
| "index0 (JObj kvs) = (case map_of kvs ''0'' of None \<Rightarrow> Undefined | Some v \<Rightarrow> Val v)"
| "index0 _ = Undefined"

text \<open>\<open>v.k\<close> without optional chaining: reading a property of \<open>undefined\<close> or \<open>null\<close> throws.\<close>

definition read_prop :: "jsval \<Rightarrow> string \<Rightarrow> jsval completion" where
  "read_prop v k = (case v of Undefined \<Rightarrow> Thrown
                 | Val j \<Rightarrow> if j = JNull then Thrown else Normal (get_prop j k))"

text \<open>\<open>v?.\<close>: \<open>undefined\<close> when \<open>v\<close> is \<open>undefined\<close> or \<open>null\<close>, the access otherwise.\<close>

definition opt_chain :: "jsval \<Rightarrow> (json \<Rightarrow> jsval) \<Rightarrow> jsval" where
  "opt_chain v f = (case v of Undefined \<Rightarrow> Undefined
                    | Val j \<Rightarrow> if j = JNull then Undefined else f j)"

text \<open>\<open>typeof v === "string"\<close>, with the string.\<close>

fun as_string :: "jsval \<Rightarrow> string option" where
  "as_string (Val (JStr s)) = Some s"
| "as_string _ = None"

subsection \<open>String.prototype.trim and parseInt\<close>

text \<open>White space and line terminators among the code units below 256.\<close>

definition is_ws :: "char \<Rightarrow> bool" where
  "is_ws c = (c \<in> {CHR 0x09, CHR 0x0A, CHR 0x0B, CHR 0x0C, CHR 0x0D, CHR 0x20, CHR 0xA0})"

definition trim :: "string \<Rightarrow> string" where
  "trim s = rev (dropWhile is_ws (rev (dropWhile is_ws s)))"

definition dec_digit :: "char \<Rightarrow> nat option" where
  "dec_digit c = (let n = (of_char c :: nat) in
                  if 48 \<le> n \<and> n \<le> 57 then Some (n - 48) else None)"

definition hex_digit :: "char \<Rightarrow> nat option" where
  "hex_digit c = (let n = (of_char c :: nat) in
                  if 48 \<le> n \<and> n \<le> 57 then Some (n - 48)
                  else if 97 \<le> n \<and> n \<le> 102 then Some (n - 87)
                  else if 65 \<le> n \<and> n \<le> 70 then Some (n - 55)
                  else None)"

fun leading_digits :: "(char \<Rightarrow> nat option) \<Rightarrow> string \<Rightarrow> nat list" where
  "leading_digits dig [] = []"
| "leading_digits dig (c # cs) =
     (case dig c of None \<Rightarrow> [] | Some d \<Rightarrow> d # leading_digits dig cs)"

definition radix_value :: "nat \<Rightarrow> nat list \<Rightarrow> nat" where
  "radix_value R ds = foldl (\<lambda>acc d. acc * R + d) 0 ds"

definition parse_radix :: "nat \<Rightarrow> (char \<Rightarrow> nat option) \<Rightarrow> string \<Rightarrow> nat option" where
  "parse_radix R dig s =
     (let ds = leading_digits dig s in if ds = [] then None else Some (radix_value R ds))"

text \<open>
  \<open>parseInt(s)\<close> with no radix: leading white space is skipped, one sign is read, a prefix
  \<open>0x\<close> or \<open>0X\<close> selects radix 16, the longest run of digits is the value, and no digit at
  all gives \<open>NaN\<close> (\<open>None\<close>).
\<close>

definition parseInt_string :: "string \<Rightarrow> int option" where
  "parseInt_string inputString =
     (let S = dropWhile is_ws inputString;
          neg = (case S of [] \<Rightarrow> False | c # _ \<Rightarrow> c = CHR ''-'');
          S1 = (case S of [] \<Rightarrow> S
                | c # r \<Rightarrow> if c = CHR ''-'' \<or> c = CHR ''+'' then r else S);
          mag = (case S1 of
                   a # b # h \<Rightarrow>
                     if a = CHR ''0'' \<and> (b = CHR ''x'' \<or> b = CHR ''X'')
                     then parse_radix 16 hex_digit h
                     else parse_radix 10 dec_digit S1
                 | _ \<Rightarrow> parse_radix 10 dec_digit S1)
      in map_option (\<lambda>m. if neg then - int m else int m) mag)"

text \<open>A field of a subscription entry is a string or absent; \<open>parseInt\<close> converts its
  argument to a string first, and \<open>undefined\<close> becomes \<open>"undefined"\<close>.\<close>

definition parseInt :: "string option \<Rightarrow> int option" where
  "parseInt v = parseInt_string (case v of None \<Rightarrow> ''undefined'' | Some s \<Rightarrow> s)"

subsection \<open>Responses\<close>

datatype resp_body = ErrorBody string | ReplyBody string

record response =
  status :: nat
  payload :: resp_body

definition error_response :: "nat \<Rightarrow> string \<Rightarrow> response" where
  "error_response code msg = \<lparr>status = code, payload = ErrorBody msg\<rparr>"

text \<open>\<open>res.json({ reply: replyText })\<close>: the status defaults to 200.\<close>

definition reply_response :: "string \<Rightarrow> response" where
  "reply_response text = \<lparr>status = 200, payload = ReplyBody text\<rparr>"

text \<open>The outer \<open>catch\<close> of the handler.\<close>

definition internal_error :: response where
  "internal_error = error_response 500 ''Internal server error.''"

subsection \<open>The external services\<close>

text \<open>
  A subscription entry of \<open>latest_receipt_info\<close>, with the four fields the handler reads.
  The verification service sends them as strings; \<open>None\<close> is an absent field.
\<close>

record entry =
  product_id :: "string option"
  original_transaction_id :: "string option"
  expires_date_ms :: "string option"
  purchase_date_ms :: "string option"

datatype verify_fault = TransportError | NonSuccessResponse | MalformedPayload

text \<open>\<open>await verifyReceipt(receipt, validationOptions)\<close> throws, or gives an object whose
  \<open>latest_receipt_info\<close> is an array of entries or is missing (\<open>None\<close>).\<close>

datatype verify_outcome =
    VerifyThrows verify_fault
  | VerifyReturns "entry list option"

text \<open>The upstream response: its \<open>ok\<close> flag, whether \<open>text()\<close> resolves, and what \<open>json()\<close>
  resolves to (\<open>None\<close> when it rejects: the body is not JSON, or cannot be read).\<close>

record fetch_response =
  ok :: bool
  text_resolves :: bool
  json_result :: "json option"

datatype fetch_outcome = FetchRejects | FetchResolves fetch_response

text \<open>
  What the world outside answers to one request: the verifier on a receipt, the successive
  readings of \<open>Date.now()\<close> (numbered from 0), and the completion service on a model and a
  prompt.
\<close>

record env =
  verifyReceipt :: "string \<Rightarrow> verify_outcome"
  date_now :: "nat \<Rightarrow> int"
  fetch_completions :: "string \<Rightarrow> string \<Rightarrow> fetch_outcome"

subsection \<open>Step 1: validation of the request fields\<close>

datatype validation = Invalid response | Valid string string string

definition supported_models :: "string list" where
  "supported_models = [''gpt-3.5-turbo'', ''gpt-4'']"

text \<open>\<open>["gpt-3.5-turbo", "gpt-4"].includes(model)\<close>: only a string equals a string.\<close>

definition includes_model :: "jsval \<Rightarrow> bool" where
  "includes_model v = (case as_string v of None \<Rightarrow> False | Some m \<Rightarrow> m \<in> set supported_models)"

text \<open>\<open>typeof v !== "string" || v.trim() === ""\<close>.\<close>

definition blank_or_not_string :: "jsval \<Rightarrow> bool" where
  "blank_or_not_string v = (case as_string v of None \<Rightarrow> True | Some s \<Rightarrow> trim s = [])"

text \<open>The destructuring of \<open>req.body\<close> throws on \<open>undefined\<close> and \<open>null\<close>, and the outer
  \<open>catch\<close> answers 500. Past the three checks the fields are strings.\<close>

definition validate :: "jsval \<Rightarrow> validation" where
  "validate reqBody =
     (case (read_prop reqBody ''receipt'', read_prop reqBody ''prompt'', read_prop reqBody ''model'') of
        (Normal receipt, Normal prompt, Normal model) \<Rightarrow>
          if blank_or_not_string receipt
          then Invalid (error_response 400 ''Missing or invalid receipt.'')
          else if blank_or_not_string prompt
          then Invalid (error_response 400 ''Missing or empty prompt.'')
          else if \<not> includes_model model
          then Invalid (error_response 400 ''Invalid model requested.'')
          else Valid (the (as_string receipt)) (the (as_string prompt)) (the (as_string model))
      | _ \<Rightarrow> Invalid internal_error)"

subsection \<open>Step 3: the matching subscription entry\<close>

definition product_for :: "string \<Rightarrow> string" where
  "product_for model = (if model = ''gpt-4'' then ''com.omegaai.chat4'' else ''com.omegaai.chat3'')"

text \<open>The comparator \<open>(a, b) => parseInt(b.purchase_date_ms) - parseInt(a.purchase_date_ms)\<close>;
  a difference with \<open>NaN\<close> is \<open>NaN\<close>.\<close>

definition compare_purchase :: "entry \<Rightarrow> entry \<Rightarrow> int option" where
  "compare_purchase a b =
     (case (parseInt (purchase_date_ms b), parseInt (purchase_date_ms a)) of
        (Some pb, Some pa) \<Rightarrow> Some (pb - pa)
      | _ \<Rightarrow> None)"

text \<open>
  \<open>Array.prototype.sort\<close> with a comparator: the language requires a stable sort and reads a
  \<open>NaN\<close> from the comparator as 0. A comparator that is a consistent ordering determines the
  result; it is computed here by stable insertion. (With an inconsistent comparator the
  language leaves the order to the implementation.)
\<close>

definition sort_order :: "('a \<Rightarrow> 'a \<Rightarrow> int option) \<Rightarrow> 'a \<Rightarrow> 'a \<Rightarrow> int" where
  "sort_order cmp x y = (case cmp x y of None \<Rightarrow> 0 | Some v \<Rightarrow> v)"

fun insert_by :: "('a \<Rightarrow> 'a \<Rightarrow> int option) \<Rightarrow> 'a \<Rightarrow> 'a list \<Rightarrow> 'a list" where
  "insert_by cmp x [] = [x]"
| "insert_by cmp x (y # ys) =
     (if sort_order cmp x y \<le> 0 then x # y # ys else y # insert_by cmp x ys)"

definition array_sort :: "('a \<Rightarrow> 'a \<Rightarrow> int option) \<Rightarrow> 'a list \<Rightarrow> 'a list" where
  "array_sort cmp xs = foldr (insert_by cmp) xs []"

text \<open>
  The \<open>for\<close> loop over the sorted entries. \<open>Date.now()\<close> is read once for each entry of the
  requested product; \<open>k\<close> counts the readings made so far. \<open>NaN > nowMs\<close> is false.
\<close>

fun scan :: "string \<Rightarrow> (nat \<Rightarrow> int) \<Rightarrow> nat \<Rightarrow> entry list \<Rightarrow> entry option" where
  "scan productID now k [] = None"
| "scan productID now k (e # rest) =
     (if product_id e = Some productID
      then (case parseInt (expires_date_ms e) of
              None \<Rightarrow> scan productID now (Suc k) rest
            | Some expiresMs \<Rightarrow>
                if expiresMs > now k then Some e else scan productID now (Suc k) rest)
      else scan productID now k rest)"

text \<open>\<open>appleResponse.latest_receipt_info || []\<close>, sorted and scanned.\<close>

definition match_entitlement :: "string \<Rightarrow> (nat \<Rightarrow> int) \<Rightarrow> entry list option \<Rightarrow> entry option" where
  "match_entitlement model now info =
     (let productID = product_for model;
          inApp = (case info of None \<Rightarrow> [] | Some es \<Rightarrow> es)
      in scan productID now 0 (array_sort compare_purchase inApp))"

subsection \<open>Step 4: the usage tracker and the quota\<close>

text \<open>A usage record \<open>{ "gpt-3.5-turbo": count, "gpt-4": count }\<close>; a property that is
  missing reads as \<open>undefined\<close>, which compares and adds like \<open>NaN\<close> (\<open>None\<close>).\<close>

type_synonym usage = "string \<Rightarrow> int option"

definition zero_usage :: usage where
  "zero_usage = (\<lambda>_. None)(''gpt-3.5-turbo'' := Some 0, ''gpt-4'' := Some 0)"

text \<open>The \<open>Map\<close> keyed by \<open>original_transaction_id\<close> (a string, or \<open>undefined\<close>).\<close>

type_synonym tracker = "string option \<rightharpoonup> usage"

definition quotas :: "string \<Rightarrow> int option" where
  "quotas = (\<lambda>_. None)(''gpt-3.5-turbo'' := Some 5000, ''gpt-4'' := Some 800)"

text \<open>\<open>if (!usageTracker.has(id)) usageTracker.set(id, { ... 0, ... 0 })\<close>.\<close>

definition ensure_record :: "tracker \<Rightarrow> string option \<Rightarrow> tracker" where
  "ensure_record t subscriber = (if t subscriber = None then t(subscriber \<mapsto> zero_usage) else t)"

text \<open>\<open>a >= b\<close> on numbers: false when either side is \<open>NaN\<close> or \<open>undefined\<close>.\<close>

definition js_ge :: "int option \<Rightarrow> int option \<Rightarrow> bool" where
  "js_ge a b = (case (a, b) of (Some x, Some y) \<Rightarrow> x \<ge> y | _ \<Rightarrow> False)"

definition quota_exceeded :: "usage \<Rightarrow> string \<Rightarrow> bool" where
  "quota_exceeded userUsage model = js_ge (userUsage model) (quotas model)"

text \<open>\<open>usageTracker.get(id)[model] += 1\<close>: a TypeError when the tracker has no record.\<close>

definition increment :: "tracker \<Rightarrow> string option \<Rightarrow> string \<Rightarrow> tracker completion" where
  "increment t subscriber model =
     (case t subscriber of
        None \<Rightarrow> Thrown
      | Some u \<Rightarrow> Normal (t(subscriber \<mapsto> u(model := map_option (\<lambda>c. c + 1) (u model)))))"

text \<open>The count that the quota check reads for a subscriber and a model: the record is
  created first when there is none.\<close>

definition current_count :: "tracker \<Rightarrow> string option \<Rightarrow> string \<Rightarrow> int option" where
  "current_count t subscriber model = the (ensure_record t subscriber subscriber) model"

subsection \<open>Step 5: the reply text\<close>

text \<open>\<open>openaiJson.choices?.[0]?.message?.content\<close>: the content of the first completion
  choice. Only the first access is not optional, and throws when the body is \<open>null\<close>.\<close>

definition first_choice_content :: "json \<Rightarrow> jsval completion" where
  "first_choice_content openaiJson =
     (case read_prop (Val openaiJson) ''choices'' of
        Thrown \<Rightarrow> Thrown
      | Normal choices \<Rightarrow>
          (let first = opt_chain choices index0;
               message = opt_chain first (\<lambda>j. get_prop j ''message'')
           in Normal (opt_chain message (\<lambda>j. get_prop j ''content''))))"

text \<open>\<open>...content?.trim()\<close>: \<open>undefined\<close> (\<open>None\<close>) when the content is \<open>undefined\<close> or
  \<open>null\<close>, the trimmed string when it is a string; any other content has no \<open>trim\<close> to call,
  and the call throws.\<close>

definition extract_reply :: "json \<Rightarrow> string option completion" where
  "extract_reply openaiJson =
     (case first_choice_content openaiJson of
        Thrown \<Rightarrow> Thrown
      | Normal content \<Rightarrow>
          (case content of
             Undefined \<Rightarrow> Normal None
           | Val JNull \<Rightarrow> Normal None
           | Val (JStr s) \<Rightarrow> Normal (Some (trim s))
           | Val _ \<Rightarrow> Thrown))"

subsection \<open>The handler, segment by segment\<close>

text \<open>What a request does that can be seen from outside its own segment: the calls of the
  two services and the operations on the usage tracker.\<close>

datatype event =
    VerifyCalled string
  | RecordCreated "string option"
  | QuotaRead "string option" string "int option"
  | CompletionCalled string string
  | UsageCommitted "string option" string

text \<open>
  Where a request stands: not yet started (with \<open>req.body\<close>), suspended at one of its
  \<open>await\<close>s with the local variables that the rest of the handler reads, or answered.
  At \<open>verifyReceipt\<close> these are the receipt, the prompt and the model; at \<open>fetch\<close> the
  subscriber, the model and the trimmed prompt that was sent; at \<open>text()\<close> whether the
  reading resolves; at \<open>json()\<close> the subscriber, the model and the parsed body, if any.
\<close>

datatype pending =
    Received jsval
  | AwaitVerify string string string
  | AwaitFetch "string option" string string
  | AwaitText bool
  | AwaitJson "string option" string "json option"
  | Responded response

text \<open>Up to \<open>await verifyReceipt(receipt, validationOptions)\<close>.\<close>

definition on_request :: "jsval \<Rightarrow> pending \<times> event list" where
  "on_request reqBody =
     (case validate reqBody of
        Invalid r \<Rightarrow> (Responded r, [])
      | Valid receipt prompt model \<Rightarrow> (AwaitVerify receipt prompt model, [VerifyCalled receipt]))"

text \<open>Step 4 and the call of \<open>fetch\<close> with the trimmed prompt.\<close>

definition quota_stage :: "tracker \<Rightarrow> entry \<Rightarrow> string \<Rightarrow> string \<Rightarrow> tracker \<times> pending \<times> event list" where
  "quota_stage t validTransaction prompt model =
     (let originalTransactionId = original_transaction_id validTransaction;
          created = (if t originalTransactionId = None
                     then [RecordCreated originalTransactionId] else []);
          t1 = ensure_record t originalTransactionId
      in case t1 originalTransactionId of
           None \<Rightarrow> (t1, Responded internal_error, created)
         | Some userUsage \<Rightarrow>
             if quota_exceeded userUsage model
             then (t1, Responded (error_response 403 ''Monthly quota exceeded for this model.''),
                   created @ [QuotaRead originalTransactionId model (userUsage model)])
             else (t1, AwaitFetch originalTransactionId model (trim prompt),
                   created @ [QuotaRead originalTransactionId model (userUsage model),
                              CompletionCalled model (trim prompt)]))"

text \<open>From the verifier's answer to \<open>await fetch(...)\<close>.\<close>

definition on_verified ::
  "(nat \<Rightarrow> int) \<Rightarrow> tracker \<Rightarrow> string \<Rightarrow> string \<Rightarrow> verify_outcome \<Rightarrow> tracker \<times> pending \<times> event list" where
  "on_verified now t prompt model outcome =
     (case outcome of
        VerifyThrows fault \<Rightarrow> (t, Responded (error_response 403 ''Failed to verify receipt.''), [])
      | VerifyReturns info \<Rightarrow>
          (case match_entitlement model now info of
             None \<Rightarrow>
               (t, Responded (error_response 403 ''No active subscription for requested model.''), [])
           | Some validTransaction \<Rightarrow> quota_stage t validTransaction prompt model))"

text \<open>From the upstream response to \<open>await openaiResponse.text()\<close> or
  \<open>await openaiResponse.json()\<close>.\<close>

definition on_fetched :: "string option \<Rightarrow> string \<Rightarrow> fetch_outcome \<Rightarrow> pending" where
  "on_fetched originalTransactionId model outcome =
     (case outcome of
        FetchRejects \<Rightarrow> Responded internal_error
      | FetchResolves openaiResponse \<Rightarrow>
          if \<not> ok openaiResponse then AwaitText (text_resolves openaiResponse)
          else AwaitJson originalTransactionId model (json_result openaiResponse))"

definition on_text :: "bool \<Rightarrow> pending" where
  "on_text resolves =
     (if resolves then Responded (error_response 500 ''Error communicating with OpenAI.'')
      else Responded internal_error)"

text \<open>Steps 6 and 7. \<open>!replyText\<close> holds of \<open>undefined\<close> and of the empty string.\<close>

definition on_json ::
  "tracker \<Rightarrow> string option \<Rightarrow> string \<Rightarrow> json option \<Rightarrow> tracker \<times> pending \<times> event list" where
  "on_json t originalTransactionId model parsed =
     (case parsed of
        None \<Rightarrow> (t, Responded internal_error, [])
      | Some openaiJson \<Rightarrow>
          (case extract_reply openaiJson of
             Thrown \<Rightarrow> (t, Responded internal_error, [])
           | Normal None \<Rightarrow>
               (t, Responded (error_response 500 ''Malformed response from OpenAI.''), [])
           | Normal (Some replyText) \<Rightarrow>
               if replyText = []
               then (t, Responded (error_response 500 ''Malformed response from OpenAI.''), [])
               else (case increment t originalTransactionId model of
                       Thrown \<Rightarrow> (t, Responded internal_error, [])
                     | Normal t2 \<Rightarrow>
                         (t2, Responded (reply_response replyText),
                          [UsageCommitted originalTransactionId model]))))"

text \<open>One segment of a request: from where it stands to its next \<open>await\<close> or its answer.\<close>

fun resume :: "env \<Rightarrow> tracker \<Rightarrow> pending \<Rightarrow> tracker \<times> pending \<times> event list" where
  "resume w t (Received reqBody) = (case on_request reqBody of (p, evs) \<Rightarrow> (t, p, evs))"
| "resume w t (AwaitVerify receipt prompt model) =
     on_verified (date_now w) t prompt model (verifyReceipt w receipt)"
| "resume w t (AwaitFetch subscriber model prompt) =
     (t, on_fetched subscriber model (fetch_completions w model prompt), [])"
| "resume w t (AwaitText resolves) = (t, on_text resolves, [])"
| "resume w t (AwaitJson subscriber model parsed) = on_json t subscriber model parsed"
| "resume w t (Responded r) = (t, Responded r, [])"

subsection \<open>One request handled alone\<close>

fun run_alone :: "nat \<Rightarrow> env \<Rightarrow> tracker \<times> pending \<times> event list \<Rightarrow> tracker \<times> pending \<times> event list" where
  "run_alone 0 w s = s"
| "run_alone (Suc n) w (t, p, evs) =
     (case resume w t p of (t', p', evs') \<Rightarrow> run_alone n w (t', p', evs @ evs'))"

text \<open>The handler has four \<open>await\<close>s on its longest path, hence at most four segments after
  which it has answered.\<close>

definition chat :: "env \<Rightarrow> tracker \<Rightarrow> jsval \<Rightarrow> tracker \<times> pending \<times> event list" where
  "chat w t reqBody = run_alone 4 w (t, Received reqBody, [])"

definition chat_tracker :: "env \<Rightarrow> tracker \<Rightarrow> jsval \<Rightarrow> tracker" where
  "chat_tracker w t reqBody = fst (chat w t reqBody)"

fun response_of :: "pending \<Rightarrow> response option" where
  "response_of (Responded r) = Some r"
| "response_of _ = None"

definition chat_response :: "env \<Rightarrow> tracker \<Rightarrow> jsval \<Rightarrow> response option" where
  "chat_response w t reqBody = response_of (fst (snd (chat w t reqBody)))"

definition chat_events :: "env \<Rightarrow> tracker \<Rightarrow> jsval \<Rightarrow> event list" where
  "chat_events w t reqBody = snd (snd (chat w t reqBody))"

fun is_verify_call :: "event \<Rightarrow> bool" where
  "is_verify_call (VerifyCalled receipt) = True"
| "is_verify_call _ = False"

fun is_completion_call :: "event \<Rightarrow> bool" where
  "is_completion_call (CompletionCalled model prompt) = True"
| "is_completion_call _ = False"

subsection \<open>Requests handled concurrently\<close>

text \<open>
  The process runs one segment at a time. A schedule names, segment after segment, the
  request that runs next; request \<open>i\<close> has its own answers \<open>ws ! i\<close> from the world. The log
  keeps each event with the number of its request.
\<close>

fun run_schedule ::
  "env list \<Rightarrow> nat list \<Rightarrow> tracker \<times> pending list \<times> (nat \<times> event) list
     \<Rightarrow> tracker \<times> pending list \<times> (nat \<times> event) list" where
  "run_schedule ws [] s = s"
| "run_schedule ws (i # sched) (t, ps, log) =
     (if i < length ps \<and> i < length ws
      then (case resume (ws ! i) t (ps ! i) of
              (t', p', evs) \<Rightarrow> run_schedule ws sched (t', ps[i := p'], log @ map (Pair i) evs))
      else run_schedule ws sched (t, ps, log))"

subsection \<open>The entitlement matcher, as specified\<close>

text \<open>
  The specification's reading of step 3, to compare the loop with: an entry is active for a
  product at a time when its product id is that product and its expiration parses to a
  number strictly greater than the time.
\<close>

definition active :: "string \<Rightarrow> int \<Rightarrow> entry \<Rightarrow> bool" where
  "active productID nowMs e =
     (product_id e = Some productID
      \<and> (case parseInt (expires_date_ms e) of None \<Rightarrow> False | Some expiresMs \<Rightarrow> expiresMs > nowMs))"

text \<open>Each entry of a list with the current time at which the scan examines it: the clock is
  read anew for every entry of the product.\<close>

fun examined :: "string \<Rightarrow> (nat \<Rightarrow> int) \<Rightarrow> nat \<Rightarrow> entry list \<Rightarrow> (entry \<times> int) list" where
  "examined productID now k [] = []"
| "examined productID now k (e # rest) =
     (e, now k) # examined productID now (if product_id e = Some productID then Suc k else k) rest"

text \<open>The first entry, in the order of the list, that is active when it is examined.\<close>

definition first_active :: "string \<Rightarrow> (nat \<Rightarrow> int) \<Rightarrow> entry list \<Rightarrow> entry option" where
  "first_active productID now es =
     map_option fst (find (\<lambda>(e, nowMs). active productID nowMs e) (examined productID now 0 es))"

text \<open>\<open>a\<close> was purchased at the time of \<open>b\<close> or later, both purchase times being numbers.\<close>

definition purchased_no_earlier :: "entry \<Rightarrow> entry \<Rightarrow> bool" where
  "purchased_no_earlier a b =
     (case (parseInt (purchase_date_ms a), parseInt (purchase_date_ms b)) of
        (Some pa, Some pb) \<Rightarrow> pa \<ge> pb
      | _ \<Rightarrow> False)"

text \<open>The key by which a stable ascending sort gives the order of the handler's sort, for
  entries whose purchase time is a number.\<close>

definition purchase_key :: "entry \<Rightarrow> int" where
  "purchase_key e = - the (parseInt (purchase_date_ms e))"

subsection \<open>Scenario data\<close>

text \<open>Inputs of the scenarios that the properties below are run on: a subscriber \<open>T1\<close> with
  an entry for each product, a world whose completion service answers \<open>Hi there\<close>, and a
  request body for a given model.\<close>

definition premium_entry :: entry where
  "premium_entry = \<lparr>product_id = Some ''com.omegaai.chat4'', original_transaction_id = Some ''T1'',
     expires_date_ms = Some ''1900000000000'', purchase_date_ms = Some ''1700000000000''\<rparr>"

definition cheap_entry :: entry where
  "cheap_entry = \<lparr>product_id = Some ''com.omegaai.chat3'', original_transaction_id = Some ''T1'',
     expires_date_ms = Some ''1900000000000'', purchase_date_ms = Some ''1600000000000''\<rparr>"

definition hi_there :: json where
  "hi_there = JObj [(''choices'',
     JArr [JObj [(''message'', JObj [(''role'', JStr ''assistant''), (''content'', JStr ''Hi there'')])]])]"

definition scenario_env :: env where
  "scenario_env = \<lparr>verifyReceipt = (\<lambda>receipt. VerifyReturns (Some [cheap_entry, premium_entry])),
     date_now = (\<lambda>k. 1800000000000),
     fetch_completions = (\<lambda>model prompt.
       FetchResolves \<lparr>ok = True, text_resolves = True, json_result = Some hi_there\<rparr>)\<rparr>"

definition request_for :: "string \<Rightarrow> jsval" where
  "request_for model =
     Val (JObj [(''receipt'', JStr ''cmVjZWlwdA==''), (''prompt'', JStr ''Hello''), (''model'', JStr model)])"

text \<open>A renewal of the premium subscription.\<close>

definition renewed_entry :: entry where
  "renewed_entry = \<lparr>product_id = Some ''com.omegaai.chat4'', original_transaction_id = Some ''T1'',
     expires_date_ms = Some ''1950000000000'', purchase_date_ms = Some ''1750000000000''\<rparr>"

definition rejecting_env :: env where
  "rejecting_env = scenario_env\<lparr>verifyReceipt := (\<lambda>receipt. VerifyThrows NonSuccessResponse)\<rparr>"

definition failing_upstream_env :: env where
  "failing_upstream_env = scenario_env\<lparr>fetch_completions := (\<lambda>model prompt.
     FetchResolves \<lparr>ok = False, text_resolves = True, json_result = None\<rparr>)\<rparr>"


definition lapsed_env :: env where
  "lapsed_env = scenario_env\<lparr>verifyReceipt := (\<lambda>receipt. VerifyReturns (Some []))\<rparr>"

text \<open>A tracker in which \<open>T1\<close> has used the whole premium quota.\<close>

definition exhausted_tracker :: tracker where
  "exhausted_tracker = [Some ''T1'' \<mapsto> zero_usage(''gpt-4'' := Some 800)]"

subsection \<open>Operations on the usage tracker\<close>

text \<open>What one operation does to the tracker: nothing, the creation of a record with zero
  counts, or the increment of one count of one record.\<close>

definition store_step :: "tracker \<Rightarrow> tracker \<Rightarrow> bool" where
  "store_step t t' =
     (t' = t
      \<or> (\<exists>i. t i = None \<and> t' = t(i \<mapsto> zero_usage))
      \<or> (\<exists>i m u. t i = Some u \<and> t' = t(i \<mapsto> u(m := map_option (\<lambda>c. c + 1) (u m)))))"

text \<open>Every record of \<open>t\<close> is still in \<open>t'\<close>, with no count smaller than it was.\<close>

definition counts_kept :: "tracker \<Rightarrow> tracker \<Rightarrow> bool" where
  "counts_kept t t' =
     (\<forall>i u. t i = Some u \<longrightarrow>
        (\<exists>u'. t' i = Some u' \<and>
           (\<forall>m. case u m of None \<Rightarrow> u' m = None | Some c \<Rightarrow> (\<exists>c'. u' m = Some c' \<and> c \<le> c'))))"

text \<open>The usage commits in a list of events, the commits of one request in a log, and a
  request that was answered 200.\<close>

fun is_commit :: "event \<Rightarrow> bool" where
  "is_commit (UsageCommitted i m) = True"
| "is_commit _ = False"

fun answered_ok :: "pending \<Rightarrow> bool" where
  "answered_ok (Responded r) = (status r = 200)"
| "answered_ok _ = False"

definition commits_by :: "nat \<Rightarrow> (nat \<times> event) list \<Rightarrow> nat" where
  "commits_by r log = length (filter (\<lambda>(r', e). r' = r \<and> is_commit e) log)"

subsection \<open>A request that commits nothing\<close>

text \<open>The outcome of a request that is answered with an error status, leaves every record of
  the tracker as it was apart from creating one with zero counts, and commits no usage.\<close>

definition failed_outcome :: "tracker \<Rightarrow> tracker \<times> pending \<times> event list \<Rightarrow> bool" where
  "failed_outcome t out =
     (case out of (t', p, evs) \<Rightarrow>
        (\<exists>r. p = Responded r \<and> (status r = 400 \<or> status r = 403 \<or> status r = 500))
        \<and> (t' = t \<or> (\<exists>i. t i = None \<and> t' = t(i \<mapsto> zero_usage)))
        \<and> (\<forall>i m. UsageCommitted i m \<notin> set evs))"

text \<open>Two requests of \<open>T1\<close> for the premium model, one call below the ceiling, each run up to
  its upstream call before either runs on.\<close>

definition nearly_exhausted_tracker :: tracker where
  "nearly_exhausted_tracker = [Some ''T1'' \<mapsto> zero_usage(''gpt-4'' := Some 799)]"

definition race :: "tracker \<times> pending list \<times> (nat \<times> event) list" where
  "race = run_schedule [scenario_env, scenario_env] [0, 0, 1, 1, 0, 0, 1, 1]
            (nearly_exhausted_tracker,
             [Received (request_for ''gpt-4''), Received (request_for ''gpt-4'')], [])"

subsection \<open>Step 3 on any verifier result\<close>

text \<open>
  The typed entries of the sections above are what the verification service documents. The
  statements of lines 61 to 80 run on whatever \<open>verifyReceipt\<close> resolved to, and on a result
  of another shape some of them throw. This section writes the same statements over JSON
  values, with each throw as a result: the verifier result may be any value, its
  \<open>latest_receipt_info\<close> any value, an element of the array any value, and a field of an
  element any value.
\<close>

text \<open>The decimal digits of a number, as \<open>Number.prototype.toString\<close> prints an integer of
  magnitude below \<open>10^21\<close> (a larger one is printed with an exponent, and is not modelled, as
  are fractions).\<close>

fun decimal :: "nat \<Rightarrow> string" where
  "decimal n = (if n < 10 then [''0123456789'' ! n] else decimal (n div 10) @ [''0123456789'' ! (n mod 10)])"

declare decimal.simps [simp del]

definition number_string :: "int \<Rightarrow> string" where
  "number_string n = (if n < 0 then CHR ''-'' # decimal (nat (- n)) else decimal (nat n))"

text \<open>\<open>Array.prototype.join\<close> with the separator \<open>","\<close>.\<close>

fun join_comma :: "string list \<Rightarrow> string" where
  "join_comma [] = []"
| "join_comma [s] = s"
| "join_comma (s # rest) = s @ CHR '','' # join_comma rest"

text \<open>
  \<open>ToString\<close> of a value that came out of a JSON document. An object is converted by the
  \<open>toString\<close> it inherits, which gives \<open>"[object Object]"\<close>, unless it has a property of its
  own with that name: the property's value is never a function, the inherited \<open>valueOf\<close>
  returns the object itself, and the conversion throws a TypeError. An array joins the
  conversions of its elements, \<open>null\<close> giving the empty string, and throws when one of them
  does. \<open>stringifies\<close> tells whether the conversion returns, \<open>to_String\<close> what it returns.
\<close>

fun stringifies :: "json \<Rightarrow> bool" where
  "stringifies (JArr xs) = (\<forall>x\<in>set xs. stringifies x)"
| "stringifies (JObj kvs) = (map_of kvs ''toString'' = None)"
| "stringifies _ = True"

fun to_String :: "json \<Rightarrow> string" where
  "to_String JNull = ''null''"
| "to_String (JBool b) = (if b then ''true'' else ''false'')"
| "to_String (JNum n) = number_string n"
| "to_String (JStr s) = s"
| "to_String (JArr xs) = join_comma (map (\<lambda>x. if x = JNull then [] else to_String x) xs)"
| "to_String (JObj kvs) = ''[object Object]''"

text \<open>\<open>parseInt(v)\<close> on any value: the argument is converted to a string first.\<close>

definition parseInt_value :: "jsval \<Rightarrow> int option completion" where
  "parseInt_value v =
     (case v of
        Undefined \<Rightarrow> Normal (parseInt_string ''undefined'')
      | Val j \<Rightarrow> if stringifies j then Normal (parseInt_string (to_String j)) else Thrown)"

text \<open>Whether a value counts as true in \<open>v || []\<close> and \<open>!v\<close>.\<close>

fun truthy :: "jsval \<Rightarrow> bool" where
  "truthy Undefined = False"
| "truthy (Val JNull) = False"
| "truthy (Val (JBool b)) = b"
| "truthy (Val (JNum n)) = (n \<noteq> 0)"
| "truthy (Val (JStr s)) = (s \<noteq> [])"
| "truthy (Val _) = True"

text \<open>The comparator \<open>(a, b) => parseInt(b.purchase_date_ms) - parseInt(a.purchase_date_ms)\<close> on
  any two elements: \<open>b\<close> is read and parsed first, then \<open>a\<close>; reading a property of \<open>null\<close>
  throws, and so does a date that cannot be converted to a string.\<close>

definition compare_entries :: "json \<Rightarrow> json \<Rightarrow> int option completion" where
  "compare_entries a b =
     (case read_prop (Val b) ''purchase_date_ms'' of
        Thrown \<Rightarrow> Thrown
      | Normal fb \<Rightarrow>
          (case parseInt_value fb of
             Thrown \<Rightarrow> Thrown
           | Normal pb \<Rightarrow>
               (case read_prop (Val a) ''purchase_date_ms'' of
                  Thrown \<Rightarrow> Thrown
                | Normal fa \<Rightarrow>
                    (case parseInt_value fa of
                       Thrown \<Rightarrow> Thrown
                     | Normal pa \<Rightarrow>
                         Normal (case (pb, pa) of (Some x, Some y) \<Rightarrow> Some (x - y) | _ \<Rightarrow> None)))))"

text \<open>\<open>inApp.sort(...)\<close> by stable insertion, as \<open>array_sort\<close> above; a throw of the comparator
  leaves the sort. An array of one element is sorted without a call of the comparator.\<close>

fun insert_entry :: "json \<Rightarrow> json list \<Rightarrow> json list completion" where
  "insert_entry x [] = Normal [x]"
| "insert_entry x (y # ys) =
     (case compare_entries x y of
        Thrown \<Rightarrow> Thrown
      | Normal v \<Rightarrow>
          if (case v of None \<Rightarrow> 0 | Some d \<Rightarrow> d) \<le> 0 then Normal (x # y # ys)
          else (case insert_entry x ys of Thrown \<Rightarrow> Thrown | Normal r \<Rightarrow> Normal (y # r)))"

fun sort_entries :: "json list \<Rightarrow> json list completion" where
  "sort_entries [] = Normal []"
| "sort_entries (x # xs) =
     (case sort_entries xs of Thrown \<Rightarrow> Thrown | Normal ordered \<Rightarrow> insert_entry x ordered)"

text \<open>The \<open>for\<close> loop of lines 67 to 76 on any elements: \<open>entry.product_id\<close> throws on
  \<open>null\<close>; only a string is \<open>===\<close> to the product; the expiration is parsed, which may throw,
  before \<open>Date.now()\<close> is read.\<close>

fun scan_entries :: "string \<Rightarrow> (nat \<Rightarrow> int) \<Rightarrow> nat \<Rightarrow> json list \<Rightarrow> json option completion" where
  "scan_entries productID now k [] = Normal None"
| "scan_entries productID now k (e # rest) =
     (case read_prop (Val e) ''product_id'' of
        Thrown \<Rightarrow> Thrown
      | Normal p \<Rightarrow>
          if p = Val (JStr productID)
          then (case parseInt_value (get_prop e ''expires_date_ms'') of
                  Thrown \<Rightarrow> Thrown
                | Normal None \<Rightarrow> scan_entries productID now (Suc k) rest
                | Normal (Some expiresMs) \<Rightarrow>
                    if expiresMs > now k then Normal (Some e)
                    else scan_entries productID now (Suc k) rest)
          else scan_entries productID now k rest)"

text \<open>Lines 61 to 76 on any verifier result: \<open>appleResponse.latest_receipt_info\<close> throws on
  \<open>null\<close> and \<open>undefined\<close>; a value that counts as false is replaced by \<open>[]\<close>; any other value
  that is not an array has no \<open>sort\<close> method, and calling it throws.\<close>

definition match_result :: "string \<Rightarrow> (nat \<Rightarrow> int) \<Rightarrow> jsval \<Rightarrow> json option completion" where
  "match_result model now appleResponse =
     (let productID = product_for model
      in case read_prop appleResponse ''latest_receipt_info'' of
           Thrown \<Rightarrow> Thrown
         | Normal info \<Rightarrow>
             if \<not> truthy info then scan_entries productID now 0 []
             else (case info of
                     Val (JArr inApp) \<Rightarrow>
                       (case sort_entries inApp of
                          Thrown \<Rightarrow> Thrown
                        | Normal ordered \<Rightarrow> scan_entries productID now 0 ordered)
                   | _ \<Rightarrow> Thrown))"

text \<open>Lines 61 to 80 up to the quota check: a throw reaches the outer \<open>catch\<close>, which answers
  500; \<open>!validTransaction\<close> answers 403; otherwise the handler goes on with the entry.\<close>

definition entitlement_stage :: "string \<Rightarrow> (nat \<Rightarrow> int) \<Rightarrow> jsval \<Rightarrow> response + json" where
  "entitlement_stage model now appleResponse =
     (case match_result model now appleResponse of
        Thrown \<Rightarrow> Inl internal_error
      | Normal None \<Rightarrow> Inl (error_response 403 ''No active subscription for requested model.'')
      | Normal (Some validTransaction) \<Rightarrow>
          if \<not> truthy (Val validTransaction)
          then Inl (error_response 403 ''No active subscription for requested model.'')
          else Inr validTransaction)"

subsection \<open>Elements that can be read\<close>






subsection \<open>Typed entries as JSON values\<close>

text \<open>A typed entry as the object it stands for: one string property for each field that is
  present; and a typed verifier result as an object.\<close>

definition field :: "string \<Rightarrow> string option \<Rightarrow> (string \<times> json) list" where
  "field k v = (case v of None \<Rightarrow> [] | Some s \<Rightarrow> [(k, JStr s)])"

definition encode_entry :: "entry \<Rightarrow> json" where
  "encode_entry e =
     JObj (field ''product_id'' (product_id e) @
           field ''original_transaction_id'' (original_transaction_id e) @
           field ''expires_date_ms'' (expires_date_ms e) @
           field ''purchase_date_ms'' (purchase_date_ms e))"

definition encode_result :: "entry list option \<Rightarrow> json" where
  "encode_result info =
     JObj ((''status'', JNum 0) #
           (case info of None \<Rightarrow> [] | Some es \<Rightarrow> [(''latest_receipt_info'', JArr (map encode_entry es))]))"

subsection \<open>Further scenario data\<close>









section \<open>Properties\<close>

subsection \<open>Unfolding the handler\<close>

lemma run_alone_Responded: "run_alone n w (t, Responded r, evs) = (t, Responded r, evs)"
  by (induction n) auto

lemma chat_Invalid: "validate reqBody = Invalid r \<Longrightarrow> chat w t reqBody = (t, Responded r, [])"
  by (simp add: chat_def eval_nat_numeral on_request_def run_alone_Responded)

lemma chat_Valid:
  "validate reqBody = Valid receipt prompt model \<Longrightarrow>
   chat w t reqBody =
     (case on_verified (date_now w) t prompt model (verifyReceipt w receipt) of
        (t1, p1, evs1) \<Rightarrow> run_alone 2 w (t1, p1, VerifyCalled receipt # evs1))"
  by (simp add: chat_def eval_nat_numeral on_request_def split: prod.splits)

lemma validate_cases:
  "validate (Val j) =
     (if j = JNull then Invalid internal_error
      else if blank_or_not_string (get_prop j ''receipt'')
      then Invalid (error_response 400 ''Missing or invalid receipt.'')
      else if blank_or_not_string (get_prop j ''prompt'')
      then Invalid (error_response 400 ''Missing or empty prompt.'')
      else if \<not> includes_model (get_prop j ''model'')
      then Invalid (error_response 400 ''Invalid model requested.'')
      else Valid (the (as_string (get_prop j ''receipt''))) (the (as_string (get_prop j ''prompt'')))
             (the (as_string (get_prop j ''model''))))"
  by (simp add: validate_def read_prop_def)

lemma ensure_record_self: "ensure_record t i i \<noteq> None"
  by (simp add: ensure_record_def)

lemma quota_stage_eq:
  "quota_stage t vt prompt model =
     (let i = original_transaction_id vt;
          created = (if t i = None then [RecordCreated i] else []);
          c = current_count t i model
      in if js_ge c (quotas model)
         then (ensure_record t i, Responded (error_response 403 ''Monthly quota exceeded for this model.''),
               created @ [QuotaRead i model c])
         else (ensure_record t i, AwaitFetch i model (trim prompt),
               created @ [QuotaRead i model c, CompletionCalled model (trim prompt)]))"
proof -
  obtain u where u: "ensure_record t (original_transaction_id vt) (original_transaction_id vt) = Some u"
    using ensure_record_self [of t "original_transaction_id vt"] by auto
  show ?thesis
    by (simp add: quota_stage_def Let_def u current_count_def quota_exceeded_def)
qed

lemma run_alone_AwaitFetch:
  "run_alone 2 w (t, AwaitFetch i m p, evs) =
     (case fetch_completions w m p of
        FetchRejects \<Rightarrow> (t, Responded internal_error, evs)
      | FetchResolves resp \<Rightarrow>
          if \<not> ok resp then (t, on_text (text_resolves resp), evs)
          else (case on_json t i m (json_result resp) of (t2, p2, e2) \<Rightarrow> (t2, p2, evs @ e2)))"
  by (simp add: eval_nat_numeral on_fetched_def run_alone_Responded split: fetch_outcome.splits prod.splits)

lemma chat_verify_throws:
  assumes "validate reqBody = Valid receipt prompt model"
    and "verifyReceipt w receipt = VerifyThrows fault"
  shows "chat w t reqBody = (t, Responded (error_response 403 ''Failed to verify receipt.''), [VerifyCalled receipt])"
  using assms by (simp add: chat_Valid on_verified_def run_alone_Responded)

lemma chat_no_match:
  assumes "validate reqBody = Valid receipt prompt model"
    and "verifyReceipt w receipt = VerifyReturns info"
    and "match_entitlement model (date_now w) info = None"
  shows "chat w t reqBody = (t, Responded (error_response 403 ''No active subscription for requested model.''), [VerifyCalled receipt])"
  using assms by (simp add: chat_Valid on_verified_def run_alone_Responded)

lemma chat_quota_exceeded:
  assumes "validate reqBody = Valid receipt prompt model"
    and "verifyReceipt w receipt = VerifyReturns info"
    and "match_entitlement model (date_now w) info = Some vt"
    and "js_ge (current_count t (original_transaction_id vt) model) (quotas model)"
  shows "chat w t reqBody =
    (ensure_record t (original_transaction_id vt),
     Responded (error_response 403 ''Monthly quota exceeded for this model.''),
     VerifyCalled receipt # (if t (original_transaction_id vt) = None then [RecordCreated (original_transaction_id vt)] else []) @
       [QuotaRead (original_transaction_id vt) model (current_count t (original_transaction_id vt) model)])"
  using assms by (simp add: chat_Valid on_verified_def quota_stage_eq run_alone_Responded Let_def)

lemma chat_admitted:
  assumes "validate reqBody = Valid receipt prompt model"
    and "verifyReceipt w receipt = VerifyReturns info"
    and "match_entitlement model (date_now w) info = Some vt"
    and "\<not> js_ge (current_count t (original_transaction_id vt) model) (quotas model)"
  shows "chat w t reqBody =
    run_alone 2 w (ensure_record t (original_transaction_id vt),
       AwaitFetch (original_transaction_id vt) model (trim prompt),
       VerifyCalled receipt # (if t (original_transaction_id vt) = None then [RecordCreated (original_transaction_id vt)] else []) @
       [QuotaRead (original_transaction_id vt) model (current_count t (original_transaction_id vt) model),
        CompletionCalled model (trim prompt)])"
  using assms by (simp add: chat_Valid on_verified_def quota_stage_eq Let_def)

lemma validate_Invalid_status:
  "validate reqBody = Invalid r \<Longrightarrow> status r = 400 \<or> status r = 500"
  by (auto simp: validate_def error_response_def internal_error_def
      split: completion.splits if_splits)

lemma ensure_record_cases:
  "ensure_record t i = t \<or> (t i = None \<and> ensure_record t i = t(i \<mapsto> zero_usage))"
  by (simp add: ensure_record_def)

lemma on_text_status: "\<exists>r. on_text b = Responded r \<and> status r = 500"
  by (simp add: on_text_def error_response_def internal_error_def)

lemma on_json_cases:
  "(\<exists>r. on_json t i m parsed = (t, Responded r, []) \<and> status r = 500)
   \<or> (\<exists>j text u. parsed = Some j \<and> extract_reply j = Normal (Some text) \<and> text \<noteq> []
         \<and> t i = Some u
         \<and> on_json t i m parsed =
             (t(i \<mapsto> u(m := map_option (\<lambda>c. c + 1) (u m))), Responded (reply_response text),
              [UsageCommitted i m]))"
  by (auto simp: on_json_def increment_def error_response_def internal_error_def
      split: option.splits completion.splits)

lemma chat_outcome:
  "failed_outcome t (chat w t reqBody)
   \<or> (\<exists>receipt prompt model info vt resp j text u.
         validate reqBody = Valid receipt prompt model
         \<and> verifyReceipt w receipt = VerifyReturns info
         \<and> match_entitlement model (date_now w) info = Some vt
         \<and> \<not> js_ge (current_count t (original_transaction_id vt) model) (quotas model)
         \<and> fetch_completions w model (trim prompt) = FetchResolves resp
         \<and> ok resp \<and> json_result resp = Some j
         \<and> extract_reply j = Normal (Some text) \<and> text \<noteq> []
         \<and> ensure_record t (original_transaction_id vt) (original_transaction_id vt) = Some u
         \<and> chat w t reqBody =
             ((ensure_record t (original_transaction_id vt))
                (original_transaction_id vt \<mapsto> u(model := map_option (\<lambda>c. c + 1) (u model))),
              Responded (reply_response text),
              VerifyCalled receipt #
              (if t (original_transaction_id vt) = None
               then [RecordCreated (original_transaction_id vt)] else []) @
              [QuotaRead (original_transaction_id vt) model
                 (current_count t (original_transaction_id vt) model),
               CompletionCalled model (trim prompt),
               UsageCommitted (original_transaction_id vt) model]))"
proof (cases "validate reqBody")
  case (Invalid r)
  then show ?thesis
    using validate_Invalid_status [OF Invalid]
    by (auto simp: chat_Invalid failed_outcome_def)
next
  case (Valid receipt prompt model)
  show ?thesis
  proof (cases "verifyReceipt w receipt")
    case (VerifyThrows fault)
    show ?thesis
      by (simp add: chat_verify_throws [OF Valid VerifyThrows] failed_outcome_def error_response_def)
  next
    case (VerifyReturns info)
    show ?thesis
    proof (cases "match_entitlement model (date_now w) info")
      case None
      show ?thesis
        by (simp add: chat_no_match [OF Valid VerifyReturns None] failed_outcome_def error_response_def)
    next
      case (Some vt)
      let ?i = "original_transaction_id vt"
      show ?thesis
      proof (cases "js_ge (current_count t ?i model) (quotas model)")
        case True
        show ?thesis
          using ensure_record_cases [of t ?i]
          by (auto simp: chat_quota_exceeded [OF Valid VerifyReturns Some True]
              failed_outcome_def error_response_def)
      next
        case False
        note adm = chat_admitted [OF Valid VerifyReturns Some False]
        show ?thesis
        proof (cases "fetch_completions w model (trim prompt)")
          case FetchRejects
          show ?thesis
            using ensure_record_cases [of t ?i]
            by (auto simp: adm run_alone_AwaitFetch FetchRejects failed_outcome_def
                internal_error_def error_response_def)
        next
          case (FetchResolves resp)
          show ?thesis
          proof (cases "ok resp")
            case nok: False
            obtain r where "on_text (text_resolves resp) = Responded r" "status r = 500"
              using on_text_status by blast
            then show ?thesis
              using ensure_record_cases [of t ?i]
              by (auto simp: adm run_alone_AwaitFetch FetchResolves nok failed_outcome_def)
          next
            case isok: True
            consider (fail) r where
                "on_json (ensure_record t ?i) ?i model (json_result resp)
                   = (ensure_record t ?i, Responded r, [])" "status r = 500"
              | (commit) j reply u where
                "json_result resp = Some j" "extract_reply j = Normal (Some reply)" "reply \<noteq> []"
                "ensure_record t ?i ?i = Some u"
                "on_json (ensure_record t ?i) ?i model (json_result resp) =
                   ((ensure_record t ?i)(?i \<mapsto> u(model := map_option (\<lambda>c. c + 1) (u model))),
                    Responded (reply_response reply), [UsageCommitted ?i model])"
              using on_json_cases [of "ensure_record t ?i" ?i model "json_result resp"] by blast
            then show ?thesis
            proof cases
              case fail
              then show ?thesis
                using ensure_record_cases [of t ?i]
                by (auto simp: adm run_alone_AwaitFetch FetchResolves isok failed_outcome_def)
            next
              case commit
              then show ?thesis
                using Valid VerifyReturns Some False FetchResolves isok
                by (simp add: adm run_alone_AwaitFetch)
            qed
          qed
        qed
      qed
    qed
  qed
qed


lemma validate_Valid:
  "validate reqBody = Valid receipt prompt model \<Longrightarrow>
   model \<in> set supported_models \<and> trim receipt \<noteq> [] \<and> trim prompt \<noteq> []"
  by (auto simp: validate_def blank_or_not_string_def includes_model_def
      split: completion.splits if_splits option.splits)

lemma current_count_created:
  "t i = None \<Longrightarrow> current_count (t(i \<mapsto> zero_usage)) i' m = current_count t i' m"
  by (auto simp: current_count_def ensure_record_def)

lemma current_count_ensure: "current_count (ensure_record t i) i' m = current_count t i' m"
  using ensure_record_cases [of t i] current_count_created [of t i i' m] by auto

lemma current_count_commit:
  assumes "ensure_record t i i = Some u"
  shows "current_count ((ensure_record t i)(i \<mapsto> u(m := map_option (\<lambda>c. c + 1) (u m)))) i' m' =
           (if i' = i \<and> m' = m then map_option (\<lambda>c. c + 1) (current_count t i m)
            else current_count t i' m')"
proof (cases "i' = i")
  case True
  then show ?thesis using assms by (simp add: current_count_def ensure_record_def)
next
  case False
  then show ?thesis
    by (auto simp: current_count_def ensure_record_def)
qed

lemma failed_outcome_counts:
  assumes "failed_outcome t (t', p, evs)"
  shows "current_count t' i m = current_count t i m"
  using assms current_count_created by (auto simp: failed_outcome_def)

lemma validate_request_for:
  "model \<in> set supported_models \<Longrightarrow>
   validate (request_for model) = Valid ''cmVjZWlwdA=='' ''Hello'' model"
  by (simp add: request_for_def validate_cases blank_or_not_string_def includes_model_def
      trim_def is_ws_def)

lemmas parse_defs =
  parseInt_def parseInt_string_def is_ws_def parse_radix_def dec_digit_def radix_value_def

lemmas match_defs =
  match_entitlement_def array_sort_def compare_purchase_def sort_order_def product_for_def

lemma match_scenario_premium:
  "match_entitlement ''gpt-4'' (date_now scenario_env) (Some [cheap_entry, premium_entry]) =
     Some premium_entry"
  by (simp add: match_defs parse_defs premium_entry_def cheap_entry_def scenario_env_def)

lemma match_scenario_cheap:
  "match_entitlement ''gpt-3.5-turbo'' (date_now scenario_env) (Some [cheap_entry, premium_entry]) =
     Some cheap_entry"
  by (simp add: match_defs parse_defs premium_entry_def cheap_entry_def scenario_env_def)

lemma quotas_supported:
  "model \<in> set supported_models \<Longrightarrow> quotas model = Some (if model = ''gpt-4'' then 800 else 5000)"
  by (auto simp: supported_models_def quotas_def)

lemma admitted_response:
  assumes "validate reqBody = Valid receipt prompt model"
    and "verifyReceipt w receipt = VerifyReturns info"
    and "match_entitlement model (date_now w) info = Some vt"
    and "\<not> js_ge (current_count t (original_transaction_id vt) model) (quotas model)"
  shows "\<exists>r. chat_response w t reqBody = Some r \<and> (status r = 500 \<or> status r = 200)
         \<and> filter is_completion_call (chat_events w t reqBody) = [CompletionCalled model (trim prompt)]"
proof -
  let ?i = "original_transaction_id vt"
  note adm = chat_admitted [OF assms]
  show ?thesis
  proof (cases "fetch_completions w model (trim prompt)")
    case FetchRejects
    then show ?thesis
      by (simp add: chat_response_def chat_events_def adm run_alone_AwaitFetch
          internal_error_def error_response_def)
  next
    case (FetchResolves resp)
    show ?thesis
    proof (cases "ok resp")
      case False
      then show ?thesis
        using on_text_status [of "text_resolves resp"]
        by (auto simp: chat_response_def chat_events_def adm run_alone_AwaitFetch FetchResolves)
    next
      case True
      then show ?thesis
        using on_json_cases [of "ensure_record t ?i" ?i model "json_result resp"]
        by (auto simp: chat_response_def chat_events_def adm run_alone_AwaitFetch FetchResolves
            reply_response_def)
    qed
  qed
qed

lemma validate_gpt4: "validate (request_for ''gpt-4'') = Valid ''cmVjZWlwdA=='' ''Hello'' ''gpt-4''"
  by (simp add: validate_request_for supported_models_def)

lemma chat_forwarded:
  assumes "validate reqBody = Valid receipt prompt model"
    and "verifyReceipt w receipt = VerifyReturns info"
    and "match_entitlement model (date_now w) info = Some vt"
    and "\<not> js_ge (current_count t (original_transaction_id vt) model) (quotas model)"
    and "fetch_completions w model (trim prompt) = FetchResolves resp"
    and "ok resp"
  shows "chat w t reqBody =
    (case on_json (ensure_record t (original_transaction_id vt)) (original_transaction_id vt) model
            (json_result resp) of
       (t2, p2, e2) \<Rightarrow>
         (t2, p2,
          (VerifyCalled receipt #
           (if t (original_transaction_id vt) = None
            then [RecordCreated (original_transaction_id vt)] else []) @
           [QuotaRead (original_transaction_id vt) model
              (current_count t (original_transaction_id vt) model),
            CompletionCalled model (trim prompt)]) @ e2))"
  using assms(5,6) by (simp add: chat_admitted [OF assms(1-4)] run_alone_AwaitFetch)

lemma extract_reply_cases:
  "extract_reply j =
     (case first_choice_content j of
        Thrown \<Rightarrow> Thrown
      | Normal Undefined \<Rightarrow> Normal None
      | Normal (Val JNull) \<Rightarrow> Normal None
      | Normal (Val (JStr s)) \<Rightarrow> Normal (Some (trim s))
      | Normal (Val _) \<Rightarrow> Thrown)"
  by (simp add: extract_reply_def split: completion.splits jsval.splits json.splits)




lemma first_choice_content_hi_there:
  "first_choice_content hi_there = Normal (Val (JStr ''Hi there''))"
  by (simp add: hi_there_def first_choice_content_def read_prop_def opt_chain_def)

subsection \<open>Sorting and scanning\<close>

lemma scan_first_active:
  "scan productID now k es =
     map_option fst (find (\<lambda>(e, nowMs). active productID nowMs e) (examined productID now k es))"
  by (induction es arbitrary: k) (auto simp: active_def split: option.splits)

lemma match_entitlement_first_active:
  "match_entitlement model now info =
     first_active (product_for model) now
       (array_sort compare_purchase (case info of None \<Rightarrow> [] | Some es \<Rightarrow> es))"
  by (simp add: match_entitlement_def first_active_def scan_first_active Let_def)

lemma mset_insert_by: "mset (insert_by cmp x ys) = add_mset x (mset ys)"
  by (induction ys) auto

lemma mset_array_sort: "mset (array_sort cmp xs) = mset xs"
  by (induction xs) (auto simp: array_sort_def mset_insert_by)

lemma set_array_sort: "set (array_sort cmp xs) = set xs"
  using mset_array_sort [of cmp xs] by (metis set_mset_mset)

lemma insert_by_insort:
  assumes "parseInt (purchase_date_ms x) \<noteq> None"
    and "\<forall>e\<in>set ys. parseInt (purchase_date_ms e) \<noteq> None"
  shows "insert_by compare_purchase x ys = insort_key purchase_key x ys"
  using assms
  by (induction ys) (auto simp: sort_order_def compare_purchase_def purchase_key_def)

lemma array_sort_sort_key:
  assumes "\<forall>e\<in>set es. parseInt (purchase_date_ms e) \<noteq> None"
  shows "array_sort compare_purchase es = sort_key purchase_key es"
  using assms
proof (induction es)
  case Nil
  then show ?case by (simp add: array_sort_def)
next
  case (Cons x es)
  then have "array_sort compare_purchase es = sort_key purchase_key es" by simp
  moreover have "\<forall>e\<in>set (sort_key purchase_key es). parseInt (purchase_date_ms e) \<noteq> None"
    using Cons.prems by simp
  ultimately show ?case
    using Cons.prems insert_by_insort [of x "sort_key purchase_key es"]
    by (simp add: array_sort_def)
qed


lemma purchase_key_le:
  assumes "parseInt (purchase_date_ms a) \<noteq> None" and "parseInt (purchase_date_ms b) \<noteq> None"
  shows "purchase_key a \<le> purchase_key b \<longleftrightarrow> purchased_no_earlier a b"
  using assms by (auto simp: purchase_key_def purchased_no_earlier_def)

lemma purchase_key_eq:
  assumes "parseInt (purchase_date_ms a) \<noteq> None"
  shows "purchase_key a = - v \<longleftrightarrow> parseInt (purchase_date_ms a) = Some v"
  using assms by (auto simp: purchase_key_def)

lemma array_sort_sorted:
  assumes "\<forall>e\<in>set es. parseInt (purchase_date_ms e) \<noteq> None"
  shows "sorted_wrt purchased_no_earlier (array_sort compare_purchase es)"
proof -
  have "sorted (map purchase_key (sort_key purchase_key es))"
    by (rule sorted_sort_key)
  then have "sorted_wrt (\<lambda>a b. purchase_key a \<le> purchase_key b) (sort_key purchase_key es)"
    by (simp add: sorted_map)
  then have "sorted_wrt purchased_no_earlier (sort_key purchase_key es)"
    using assms by (elim sorted_wrt_mono_rel [rotated]) (simp add: purchase_key_le)
  then show ?thesis
    by (simp add: array_sort_sort_key [OF assms])
qed

lemma array_sort_stable:
  assumes "\<forall>e\<in>set es. parseInt (purchase_date_ms e) \<noteq> None"
  shows "filter (\<lambda>e. parseInt (purchase_date_ms e) = Some v) (array_sort compare_purchase es) =
         filter (\<lambda>e. parseInt (purchase_date_ms e) = Some v) es"
proof -
  have "filter (\<lambda>e. parseInt (purchase_date_ms e) = Some v) (sort_key purchase_key es) =
        filter (\<lambda>e. purchase_key e = - v) (sort_key purchase_key es)"
    using assms by (intro filter_cong refl) (simp add: purchase_key_eq)
  also have "\<dots> = filter (\<lambda>e. purchase_key e = - v) es"
    by (rule sort_key_stable)
  also have "\<dots> = filter (\<lambda>e. parseInt (purchase_date_ms e) = Some v) es"
    using assms by (intro filter_cong refl) (simp add: purchase_key_eq)
  finally show ?thesis
    by (simp add: array_sort_sort_key [OF assms])
qed

lemma scan_prefers_later:
  assumes "sorted_wrt purchased_no_earlier xs"
    and "\<forall>e\<in>set xs. parseInt (purchase_date_ms e) \<noteq> None"
    and "e1 \<in> set xs"
    and "\<forall>k. active productID (now k) e1"
  shows "\<exists>e. scan productID now k xs = Some e \<and> purchased_no_earlier e e1"
  using assms
proof (induction xs arbitrary: k)
  case Nil
  then show ?case by simp
next
  case (Cons x xs)
  show ?case
  proof (cases "active productID (now k) x")
    case True
    then have "scan productID now k (x # xs) = Some x"
      by (auto simp: active_def split: option.splits)
    moreover have "purchased_no_earlier x e1"
    proof (cases "e1 = x")
      case True
      then show ?thesis using Cons.prems(2) by (auto simp: purchased_no_earlier_def)
    next
      case False
      then show ?thesis using Cons.prems(1,3) by auto
    qed
    ultimately show ?thesis by simp
  next
    case False
    then have ne: "e1 \<noteq> x" using Cons.prems(4) by auto
    have step: "scan productID now k (x # xs) =
            scan productID now (if product_id x = Some productID then Suc k else k) xs"
      using False by (auto simp: active_def split: option.splits)
    show ?thesis
      unfolding step
      using Cons.IH [of "if product_id x = Some productID then Suc k else k"] Cons.prems ne
      by auto
  qed
qed

lemma scan_step:
  "scan productID now k (x # xs) =
     (if active productID (now k) x then Some x
      else scan productID now (if product_id x = Some productID then Suc k else k) xs)"
  by (auto simp: active_def split: option.splits)

lemma scan_sound:
  "scan productID now k es = Some e \<Longrightarrow> e \<in> set es \<and> (\<exists>k'. active productID (now k') e)"
  by (induction es arbitrary: k) (auto simp: scan_step simp del: scan.simps(2) split: if_splits)

lemma scan_none:
  "\<forall>e\<in>set es. \<forall>k. \<not> active productID (now k) e \<Longrightarrow> scan productID now k es = None"
  by (induction es arbitrary: k) (auto simp: scan_step simp del: scan.simps(2))

lemma on_verified_no_match:
  "match_entitlement model now info = None \<Longrightarrow>
   on_verified now t prompt model (VerifyReturns info) =
     (t, Responded (error_response 403 ''No active subscription for requested model.''), [])"
  by (simp add: on_verified_def)

lemma chat_responds: "\<exists>r. chat_response w t reqBody = Some r"
  using chat_outcome [of t w reqBody]
  by (auto simp: failed_outcome_def chat_response_def split: prod.splits)

lemma parse_scenario:
  "parseInt (Some ''1900000000000'') = Some 1900000000000"
  "parseInt (Some ''1950000000000'') = Some 1950000000000"
  "parseInt (Some ''1750000000000'') = Some 1750000000000"
  "parseInt (Some ''1700000000000'') = Some 1700000000000"
  "parseInt (Some ''1600000000000'') = Some 1600000000000"
  "parseInt (Some ''never'') = None"
  "parseInt None = None"
  by (simp_all add: parse_defs)

subsection \<open>The scenarios\<close>

lemma trim_Hello: "trim ''Hello'' = ''Hello''" "trim ''Hi there'' = ''Hi there''"
  by (simp_all add: trim_def is_ws_def)

lemma validate_gpt35:
  "validate (request_for ''gpt-3.5-turbo'') = Valid ''cmVjZWlwdA=='' ''Hello'' ''gpt-3.5-turbo''"
  by (simp add: validate_request_for supported_models_def)

lemma verify_scenario:
  "verifyReceipt scenario_env ''cmVjZWlwdA=='' = VerifyReturns (Some [cheap_entry, premium_entry])"
  by (simp add: scenario_env_def)

lemma fresh_below_quota:
  "\<not> js_ge (current_count Map.empty (original_transaction_id cheap_entry) ''gpt-3.5-turbo'')
          (quotas ''gpt-3.5-turbo'')"
  "\<not> js_ge (current_count Map.empty (original_transaction_id premium_entry) ''gpt-4'')
          (quotas ''gpt-4'')"
  by (simp_all add: current_count_def ensure_record_def zero_usage_def quotas_def js_ge_def)

lemma chat_scenario_cheap:
  "chat scenario_env Map.empty (request_for ''gpt-3.5-turbo'') =
     ([Some ''T1'' \<mapsto> zero_usage(''gpt-3.5-turbo'' := Some 1)],
      Responded (reply_response ''Hi there''),
      [VerifyCalled ''cmVjZWlwdA=='', RecordCreated (Some ''T1''),
       QuotaRead (Some ''T1'') ''gpt-3.5-turbo'' (Some 0),
       CompletionCalled ''gpt-3.5-turbo'' ''Hello'',
       UsageCommitted (Some ''T1'') ''gpt-3.5-turbo''])"
proof -
  have u: "fetch_completions scenario_env ''gpt-3.5-turbo'' (trim ''Hello'') =
             FetchResolves \<lparr>ok = True, text_resolves = True, json_result = Some hi_there\<rparr>"
    by (simp add: scenario_env_def)
  have k: "ok \<lparr>ok = True, text_resolves = True, json_result = Some hi_there\<rparr>"
    by simp
  have i: "original_transaction_id cheap_entry = Some ''T1''"
    by (simp add: cheap_entry_def)
  show ?thesis
    unfolding chat_forwarded [OF validate_gpt35 verify_scenario match_scenario_cheap
        fresh_below_quota(1) u k]
    by (simp add: i on_json_def extract_reply_cases first_choice_content_hi_there trim_Hello
        increment_def ensure_record_def current_count_def zero_usage_def)
qed

subsection \<open>Request validation\<close>

text \<open>
  C5. A request body in which \<open>receipt\<close> is not a string that is non-empty after trimming, or
  \<open>prompt\<close> is not one, or \<open>model\<close> is not one of the two supported models, is answered 400
  with the message of the first offending field in the order receipt, prompt, model; no
  service is called (the verifier in particular) and the tracker is as before.
\<close>

theorem invalid_request_rejected:
  assumes "j \<noteq> JNull"
    and "blank_or_not_string (get_prop j ''receipt'') \<or> blank_or_not_string (get_prop j ''prompt'')
         \<or> \<not> includes_model (get_prop j ''model'')"
  shows "chat_response w t (Val j) =
           Some (error_response 400
             (if blank_or_not_string (get_prop j ''receipt'') then ''Missing or invalid receipt.''
              else if blank_or_not_string (get_prop j ''prompt'') then ''Missing or empty prompt.''
              else ''Invalid model requested.''))
         \<and> chat_events w t (Val j) = [] \<and> chat_tracker w t (Val j) = t"
proof -
  obtain r where v: "validate (Val j) = Invalid r"
    and r: "r = error_response 400
             (if blank_or_not_string (get_prop j ''receipt'') then ''Missing or invalid receipt.''
              else if blank_or_not_string (get_prop j ''prompt'') then ''Missing or empty prompt.''
              else ''Invalid model requested.'')"
    using assms by (auto simp: validate_cases)
  show ?thesis
    using chat_Invalid [OF v, of w t] r
    by (simp add: chat_response_def chat_events_def chat_tracker_def)
qed

theorem invalid_request_rejected_witness:
  "chat_response scenario_env Map.empty (request_for ''gpt-5'') =
     Some (error_response 400 ''Invalid model requested.'')
   \<and> chat_events scenario_env Map.empty (request_for ''gpt-5'') = []"
  using invalid_request_rejected [of "JObj [(''receipt'', JStr ''cmVjZWlwdA==''),
      (''prompt'', JStr ''Hello''), (''model'', JStr ''gpt-5'')]" scenario_env Map.empty]
  by (simp add: request_for_def blank_or_not_string_def includes_model_def supported_models_def
      trim_def is_ws_def)

subsection \<open>Receipt verification\<close>

text \<open>
  C6. Whatever makes the receipt verifier throw (a transport error, a non-success response, a
  malformed payload), a valid request is answered 403 \<open>Failed to verify receipt.\<close>; the
  verifier is the only service called, so the completion service is not, and the tracker is
  as before.
\<close>

theorem verifier_failure_rejected:
  assumes "validate reqBody = Valid receipt prompt model"
    and "verifyReceipt w receipt = VerifyThrows fault"
  shows "chat_response w t reqBody = Some (error_response 403 ''Failed to verify receipt.'')
         \<and> chat_events w t reqBody = [VerifyCalled receipt]
         \<and> filter is_completion_call (chat_events w t reqBody) = []
         \<and> chat_tracker w t reqBody = t"
  using chat_verify_throws [OF assms, of t]
  by (simp add: chat_response_def chat_events_def chat_tracker_def)

theorem verifier_failure_rejected_witness:
  "chat_response rejecting_env Map.empty (request_for ''gpt-4'') =
     Some (error_response 403 ''Failed to verify receipt.'')
   \<and> chat_events rejecting_env Map.empty (request_for ''gpt-4'') = [VerifyCalled ''cmVjZWlwdA=='']
   \<and> filter is_completion_call (chat_events rejecting_env Map.empty (request_for ''gpt-4'')) = []"
proof -
  have v: "validate (request_for ''gpt-4'') = Valid ''cmVjZWlwdA=='' ''Hello'' ''gpt-4''"
    by (simp add: validate_request_for supported_models_def)
  have f: "verifyReceipt rejecting_env ''cmVjZWlwdA=='' = VerifyThrows NonSuccessResponse"
    by (simp add: rejecting_env_def)
  show ?thesis
    using verifier_failure_rejected [OF v f, of Map.empty] by simp
qed

subsection \<open>Usage is committed on success only\<close>

text \<open>
  C3. When a request is answered with any status other than 200 (invalid request, receipt
  verification failure, no active subscription, quota exceeded, upstream failure, malformed
  upstream response, internal fault), the count that the quota check reads is the same
  afterwards for every subscriber and model: each record of the tracker is as before, or is
  a new record with zero counts, and no usage is committed. A count changes, or a commit is
  logged, only when the upstream call has answered with success and a reply text that is
  not empty, which is then the answer.
\<close>

theorem failure_commits_nothing:
  assumes "chat_response w t reqBody = Some r"
  shows "(status r \<noteq> 200 \<longrightarrow>
            (\<forall>i m. current_count (chat_tracker w t reqBody) i m = current_count t i m)
            \<and> (\<forall>i. chat_tracker w t reqBody i = t i
                   \<or> (t i = None \<and> chat_tracker w t reqBody i = Some zero_usage))
            \<and> (\<forall>i m. UsageCommitted i m \<notin> set (chat_events w t reqBody)))
         \<and> ((\<exists>i m. current_count (chat_tracker w t reqBody) i m \<noteq> current_count t i m
                    \<or> UsageCommitted i m \<in> set (chat_events w t reqBody)) \<longrightarrow>
            (\<exists>receipt prompt model resp j reply.
               validate reqBody = Valid receipt prompt model
               \<and> fetch_completions w model (trim prompt) = FetchResolves resp
               \<and> ok resp \<and> json_result resp = Some j
               \<and> extract_reply j = Normal (Some reply) \<and> reply \<noteq> []
               \<and> r = reply_response reply))"
proof -
  obtain t' p evs where c: "chat w t reqBody = (t', p, evs)"
    by (cases "chat w t reqBody") auto
  have p: "p = Responded r"
    using assms c by (cases p) (auto simp: chat_response_def)
  consider (failed) "failed_outcome t (t', p, evs)"
    | (committed) receipt prompt model resp j reply where
        "validate reqBody = Valid receipt prompt model"
        "fetch_completions w model (trim prompt) = FetchResolves resp"
        "ok resp" "json_result resp = Some j"
        "extract_reply j = Normal (Some reply)" "reply \<noteq> []"
        "p = Responded (reply_response reply)"
    using chat_outcome [of t w reqBody] c by auto
  then show ?thesis
  proof cases
    case failed
    have "\<forall>i m. current_count t' i m = current_count t i m"
      using failed_outcome_counts [OF failed] by simp
    moreover have "\<forall>i. t' i = t i \<or> (t i = None \<and> t' i = Some zero_usage)"
      using failed by (auto simp: failed_outcome_def split: if_splits)
    moreover have "\<forall>i m. UsageCommitted i m \<notin> set evs"
      using failed by (auto simp: failed_outcome_def)
    ultimately show ?thesis
      by (simp add: chat_tracker_def chat_events_def c)
  next
    case committed
    then have "status r = 200"
      using p by (simp add: reply_response_def)
    then show ?thesis
      using committed p by auto
  qed
qed

theorem failure_commits_nothing_witness:
  "chat_response failing_upstream_env Map.empty (request_for ''gpt-4'') =
     Some (error_response 500 ''Error communicating with OpenAI.'')
   \<and> current_count (chat_tracker failing_upstream_env Map.empty (request_for ''gpt-4''))
        (Some ''T1'') ''gpt-4'' = Some 0
   \<and> (\<exists>receipt prompt model resp j reply.
         validate (request_for ''gpt-3.5-turbo'') = Valid receipt prompt model
         \<and> fetch_completions scenario_env model (trim prompt) = FetchResolves resp
         \<and> ok resp \<and> json_result resp = Some j
         \<and> extract_reply j = Normal (Some reply) \<and> reply \<noteq> []
         \<and> reply_response ''Hi there'' = reply_response reply)"
proof -
  have f: "verifyReceipt failing_upstream_env ''cmVjZWlwdA=='' =
             VerifyReturns (Some [cheap_entry, premium_entry])"
    by (simp add: failing_upstream_env_def scenario_env_def)
  have m: "match_entitlement ''gpt-4'' (date_now failing_upstream_env)
             (Some [cheap_entry, premium_entry]) = Some premium_entry"
    by (simp add: failing_upstream_env_def match_scenario_premium)
  have r: "chat_response failing_upstream_env Map.empty (request_for ''gpt-4'') =
             Some (error_response 500 ''Error communicating with OpenAI.'')"
  proof -
    have u: "fetch_completions failing_upstream_env ''gpt-4'' (trim ''Hello'') =
               FetchResolves \<lparr>ok = False, text_resolves = True, json_result = None\<rparr>"
      by (simp add: failing_upstream_env_def)
    show ?thesis
      unfolding chat_response_def chat_admitted [OF validate_gpt4 f m fresh_below_quota(2)]
      by (simp add: run_alone_AwaitFetch u on_text_def)
  qed
  have s: "status (error_response 500 ''Error communicating with OpenAI.'') \<noteq> 200"
    by (simp add: error_response_def)
  have z: "current_count Map.empty (Some ''T1'') ''gpt-4'' = Some 0"
    by (simp add: current_count_def ensure_record_def zero_usage_def)
  have r2: "chat_response scenario_env Map.empty (request_for ''gpt-3.5-turbo'') =
              Some (reply_response ''Hi there'')"
    by (simp add: chat_response_def chat_scenario_cheap)
  have c2: "UsageCommitted (Some ''T1'') ''gpt-3.5-turbo''
              \<in> set (chat_events scenario_env Map.empty (request_for ''gpt-3.5-turbo''))"
    by (simp add: chat_events_def chat_scenario_cheap)
  have a: "\<exists>receipt prompt model resp j reply.
         validate (request_for ''gpt-3.5-turbo'') = Valid receipt prompt model
         \<and> fetch_completions scenario_env model (trim prompt) = FetchResolves resp
         \<and> ok resp \<and> json_result resp = Some j
         \<and> extract_reply j = Normal (Some reply) \<and> reply \<noteq> []
         \<and> reply_response ''Hi there'' = reply_response reply"
    using failure_commits_nothing [OF r2] c2 by blast
  show ?thesis
    using failure_commits_nothing [OF r] r s z a by simp
qed

subsection \<open>Quota enforcement\<close>

text \<open>
  C1. For a valid request whose receipt is verified and whose entitlement is matched, the
  ceiling of the requested model is 800 for \<open>gpt-4\<close> and 5000 for \<open>gpt-3.5-turbo\<close>; the request
  is answered 403 \<open>Monthly quota exceeded for this model.\<close> exactly when the subscriber's
  current count for the model is at least the ceiling; a request rejected so makes no call of
  the completion service, and a request that is not makes exactly one.
\<close>

theorem quota_enforced:
  assumes "validate reqBody = Valid receipt prompt model"
    and "verifyReceipt w receipt = VerifyReturns info"
    and "match_entitlement model (date_now w) info = Some vt"
  shows "quotas model = Some (if model = ''gpt-4'' then 800 else 5000)
    \<and> (chat_response w t reqBody = Some (error_response 403 ''Monthly quota exceeded for this model.'')
         \<longleftrightarrow> js_ge (current_count t (original_transaction_id vt) model) (quotas model))
    \<and> (js_ge (current_count t (original_transaction_id vt) model) (quotas model)
         \<longrightarrow> filter is_completion_call (chat_events w t reqBody) = [])
    \<and> (\<not> js_ge (current_count t (original_transaction_id vt) model) (quotas model)
         \<longrightarrow> filter is_completion_call (chat_events w t reqBody) = [CompletionCalled model (trim prompt)])
    \<and> (js_ge (current_count t (original_transaction_id vt) model) (quotas model)
         \<longleftrightarrow> (\<exists>c. current_count t (original_transaction_id vt) model = Some c
                  \<and> (if model = ''gpt-4'' then 800 else 5000) \<le> c))"
proof -
  have q: "quotas model = Some (if model = ''gpt-4'' then 800 else 5000)"
    using validate_Valid [OF assms(1)] by (simp add: quotas_supported)
  have ge: "js_ge (current_count t (original_transaction_id vt) model) (quotas model)
         \<longleftrightarrow> (\<exists>c. current_count t (original_transaction_id vt) model = Some c
                  \<and> (if model = ''gpt-4'' then 800 else 5000) \<le> c)"
    unfolding q by (auto simp: js_ge_def split: option.splits)
  show ?thesis
  proof (cases "js_ge (current_count t (original_transaction_id vt) model) (quotas model)")
    case True
    show ?thesis
      using True q ge
      by (simp add: chat_response_def chat_events_def chat_quota_exceeded [OF assms True])
  next
    case False
    show ?thesis
      using False q ge admitted_response [OF assms False]
      by (auto simp: error_response_def)
  qed
qed

theorem quota_enforced_witness:
  "chat_response scenario_env exhausted_tracker (request_for ''gpt-4'') =
     Some (error_response 403 ''Monthly quota exceeded for this model.'')
   \<and> filter is_completion_call (chat_events scenario_env exhausted_tracker (request_for ''gpt-4'')) = []
   \<and> filter is_completion_call (chat_events scenario_env Map.empty (request_for ''gpt-4''))
       = [CompletionCalled ''gpt-4'' ''Hello'']"
proof -
  have q: "js_ge (current_count exhausted_tracker (original_transaction_id premium_entry) ''gpt-4'')
                 (quotas ''gpt-4'')"
    by (simp add: current_count_def ensure_record_def exhausted_tracker_def premium_entry_def
        quotas_def js_ge_def)
  show ?thesis
    using quota_enforced [OF validate_gpt4 verify_scenario match_scenario_premium, of exhausted_tracker]
      quota_enforced [OF validate_gpt4 verify_scenario match_scenario_premium, of Map.empty]
      q fresh_below_quota(2) trim_Hello(1)
    by simp
qed

subsection \<open>The access-denied answers\<close>

text \<open>
  C7, as the claim states it, fails: a request whose receipt cannot be verified and a request
  with no active subscription are both answered 403, with different bodies.
\<close>

theorem denied_bodies_differ:
  "chat_response rejecting_env Map.empty (request_for ''gpt-4'') =
     Some (error_response 403 ''Failed to verify receipt.'')
   \<and> chat_response lapsed_env Map.empty (request_for ''gpt-4'') =
     Some (error_response 403 ''No active subscription for requested model.'')
   \<and> chat_response rejecting_env Map.empty (request_for ''gpt-4'')
       \<noteq> chat_response lapsed_env Map.empty (request_for ''gpt-4'')"
proof -
  have a: "verifyReceipt rejecting_env ''cmVjZWlwdA=='' = VerifyThrows NonSuccessResponse"
    by (simp add: rejecting_env_def)
  have b: "verifyReceipt lapsed_env ''cmVjZWlwdA=='' = VerifyReturns (Some [])"
    by (simp add: lapsed_env_def)
  have c: "match_entitlement ''gpt-4'' (date_now lapsed_env) (Some []) = None"
    by (simp add: match_defs)
  show ?thesis
    by (simp add: chat_response_def chat_verify_throws [OF validate_gpt4 a]
        chat_no_match [OF validate_gpt4 b c] error_response_def)
qed

text \<open>
  C7, amended. The three access-denied failures are all answered with status 403 and an error
  body, and each has a message of its own: for a valid request, the answer is
  \<open>Failed to verify receipt.\<close> exactly when the verifier throws,
  \<open>No active subscription for requested model.\<close> exactly when no entry matches, and
  \<open>Monthly quota exceeded for this model.\<close> exactly when the count has reached the ceiling;
  no other answer has status 403.
\<close>

theorem denied_reasons_by_message:
  assumes "validate reqBody = Valid receipt prompt model"
  shows "((\<exists>fault. verifyReceipt w receipt = VerifyThrows fault)
           \<longleftrightarrow> chat_response w t reqBody = Some (error_response 403 ''Failed to verify receipt.''))
    \<and> ((\<exists>info. verifyReceipt w receipt = VerifyReturns info
                \<and> match_entitlement model (date_now w) info = None)
           \<longleftrightarrow> chat_response w t reqBody =
                 Some (error_response 403 ''No active subscription for requested model.''))
    \<and> ((\<exists>info vt. verifyReceipt w receipt = VerifyReturns info
                \<and> match_entitlement model (date_now w) info = Some vt
                \<and> js_ge (current_count t (original_transaction_id vt) model) (quotas model))
           \<longleftrightarrow> chat_response w t reqBody =
                 Some (error_response 403 ''Monthly quota exceeded for this model.''))
    \<and> (\<forall>r. chat_response w t reqBody = Some r \<and> status r = 403 \<longrightarrow>
           r = error_response 403 ''Failed to verify receipt.''
           \<or> r = error_response 403 ''No active subscription for requested model.''
           \<or> r = error_response 403 ''Monthly quota exceeded for this model.'')"
proof (cases "verifyReceipt w receipt")
  case (VerifyThrows fault)
  show ?thesis
    by (simp add: chat_response_def chat_verify_throws [OF assms VerifyThrows] VerifyThrows
        error_response_def)
next
  case (VerifyReturns info)
  show ?thesis
  proof (cases "match_entitlement model (date_now w) info")
    case None
    show ?thesis
      by (simp add: chat_response_def chat_no_match [OF assms VerifyReturns None] VerifyReturns None
          error_response_def)
  next
    case (Some vt)
    show ?thesis
    proof (cases "js_ge (current_count t (original_transaction_id vt) model) (quotas model)")
      case True
      show ?thesis
        using True
        by (simp add: chat_response_def chat_quota_exceeded [OF assms VerifyReturns Some True]
            VerifyReturns Some error_response_def)
    next
      case False
      show ?thesis
        using False admitted_response [OF assms VerifyReturns Some False]
        by (auto simp: VerifyReturns Some error_response_def)
    qed
  qed
qed

theorem denied_reasons_by_message_witness:
  "chat_response lapsed_env Map.empty (request_for ''gpt-4'') =
     Some (error_response 403 ''No active subscription for requested model.'')"
proof -
  have b: "verifyReceipt lapsed_env ''cmVjZWlwdA=='' = VerifyReturns (Some [])"
    by (simp add: lapsed_env_def)
  have c: "match_entitlement ''gpt-4'' (date_now lapsed_env) (Some []) = None"
    by (simp add: match_defs)
  show ?thesis
    using denied_reasons_by_message [OF validate_gpt4, of lapsed_env Map.empty] b c by simp
qed

subsection \<open>The reply\<close>













subsection \<open>Entitlement matching\<close>

text \<open>
  C2. The product of \<open>gpt-4\<close> is \<open>com.omegaai.chat4\<close> and that of any other model
  \<open>com.omegaai.chat3\<close>. For entries whose purchase times are numbers, the sorted list is a
  permutation of the entries in which no entry comes before one purchased later, and entries
  purchased at the same time keep their input order. The matcher selects the first entry of
  the sorted list that has the product and whose expiration is strictly greater than the
  current time read when the entry is examined; without such an entry the segment answers
  403 \<open>No active subscription for requested model.\<close> An unexpired entry of the product is
  never passed over for one purchased earlier.
\<close>

theorem entitlement_matching:
  assumes "\<forall>e\<in>set es. parseInt (purchase_date_ms e) \<noteq> None"
  shows "product_for model = (if model = ''gpt-4'' then ''com.omegaai.chat4'' else ''com.omegaai.chat3'')
    \<and> mset (array_sort compare_purchase es) = mset es
    \<and> sorted_wrt purchased_no_earlier (array_sort compare_purchase es)
    \<and> (\<forall>v. filter (\<lambda>e. parseInt (purchase_date_ms e) = Some v) (array_sort compare_purchase es) =
            filter (\<lambda>e. parseInt (purchase_date_ms e) = Some v) es)
    \<and> match_entitlement model now (Some es) =
        first_active (product_for model) now (array_sort compare_purchase es)
    \<and> (match_entitlement model now (Some es) = None \<longrightarrow>
         on_verified now t prompt model (VerifyReturns (Some es)) =
           (t, Responded (error_response 403 ''No active subscription for requested model.''), []))
    \<and> (\<forall>e1\<in>set es. (\<forall>k. active (product_for model) (now k) e1) \<longrightarrow>
          (\<exists>e. match_entitlement model now (Some es) = Some e \<and> purchased_no_earlier e e1))
    \<and> (\<forall>e1\<in>set es. \<forall>e2\<in>set es.
          (\<forall>k. active (product_for model) (now k) e1) \<and> \<not> purchased_no_earlier e2 e1 \<longrightarrow>
          match_entitlement model now (Some es) \<noteq> Some e2)"
proof -
  let ?sorted = "array_sort compare_purchase es"
  have parsed: "\<forall>e\<in>set ?sorted. parseInt (purchase_date_ms e) \<noteq> None"
    using assms by (simp add: set_array_sort)
  have later: "\<exists>e. match_entitlement model now (Some es) = Some e \<and> purchased_no_earlier e e1"
    if "e1 \<in> set es" "\<forall>k. active (product_for model) (now k) e1" for e1
    using scan_prefers_later [OF array_sort_sorted [OF assms] parsed, of e1 "product_for model" now 0] that
    by (simp add: match_entitlement_def set_array_sort Let_def)
  have "match_entitlement model now (Some es) \<noteq> Some e2"
    if "e1 \<in> set es" "\<forall>k. active (product_for model) (now k) e1" "\<not> purchased_no_earlier e2 e1"
    for e1 e2
    using later [OF that(1,2)] that(3) by auto
  then show ?thesis
    using later mset_array_sort [of compare_purchase es] array_sort_sorted [OF assms]
      array_sort_stable [OF assms] match_entitlement_first_active [of model now "Some es"]
      on_verified_no_match [of model now "Some es" t prompt]
    by (simp add: product_for_def)
qed

theorem entitlement_matching_witness:
  "sorted_wrt purchased_no_earlier (array_sort compare_purchase [premium_entry, renewed_entry])
   \<and> array_sort compare_purchase [premium_entry, renewed_entry] = [renewed_entry, premium_entry]
   \<and> match_entitlement ''gpt-4'' (date_now scenario_env) (Some [premium_entry, renewed_entry])
       = Some renewed_entry
   \<and> match_entitlement ''gpt-4'' (date_now scenario_env) (Some [premium_entry, renewed_entry])
       \<noteq> Some premium_entry
   \<and> on_verified (date_now scenario_env) Map.empty ''Hello'' ''gpt-4'' (VerifyReturns (Some [cheap_entry])) =
       (Map.empty, Responded (error_response 403 ''No active subscription for requested model.''), [])"
proof -
  have h: "\<forall>e\<in>set [premium_entry, renewed_entry]. parseInt (purchase_date_ms e) \<noteq> None"
    by (simp add: premium_entry_def renewed_entry_def parse_scenario)
  have s: "array_sort compare_purchase [premium_entry, renewed_entry] = [renewed_entry, premium_entry]"
    by (simp add: array_sort_def compare_purchase_def sort_order_def premium_entry_def
        renewed_entry_def parse_scenario)
  have a: "\<forall>k. active (product_for ''gpt-4'') (date_now scenario_env k) renewed_entry"
    by (simp add: active_def renewed_entry_def parse_scenario product_for_def scenario_env_def)
  have f: "first_active (product_for ''gpt-4'') (date_now scenario_env) [renewed_entry, premium_entry]
             = Some renewed_entry"
    using a by (simp add: first_active_def)
  have n: "\<not> purchased_no_earlier premium_entry renewed_entry"
    by (simp add: purchased_no_earlier_def premium_entry_def renewed_entry_def parse_scenario)
  have h': "\<forall>e\<in>set [cheap_entry]. parseInt (purchase_date_ms e) \<noteq> None"
    by (simp add: cheap_entry_def parse_scenario)
  have none: "match_entitlement ''gpt-4'' (date_now scenario_env) (Some [cheap_entry]) = None"
    by (simp add: match_defs cheap_entry_def)
  have "\<forall>e1\<in>set [premium_entry, renewed_entry]. \<forall>e2\<in>set [premium_entry, renewed_entry].
          (\<forall>k. active (product_for ''gpt-4'') (date_now scenario_env k) e1)
          \<and> \<not> purchased_no_earlier e2 e1 \<longrightarrow>
          match_entitlement ''gpt-4'' (date_now scenario_env) (Some [premium_entry, renewed_entry])
            \<noteq> Some e2"
    using entitlement_matching [OF h, of "''gpt-4''" "date_now scenario_env"] by blast
  from this [rule_format, of renewed_entry premium_entry]
  have later: "match_entitlement ''gpt-4'' (date_now scenario_env) (Some [premium_entry, renewed_entry])
       \<noteq> Some premium_entry"
    using a n by simp
  have sorted: "sorted_wrt purchased_no_earlier (array_sort compare_purchase [premium_entry, renewed_entry])"
    and chosen: "match_entitlement ''gpt-4'' (date_now scenario_env) (Some [premium_entry, renewed_entry]) =
             first_active (product_for ''gpt-4'') (date_now scenario_env)
               (array_sort compare_purchase [premium_entry, renewed_entry])"
    using entitlement_matching [OF h, of "''gpt-4''" "date_now scenario_env"] by blast+
  have denied: "on_verified (date_now scenario_env) Map.empty ''Hello'' ''gpt-4''
                 (VerifyReturns (Some [cheap_entry])) =
       (Map.empty, Responded (error_response 403 ''No active subscription for requested model.''), [])"
    using entitlement_matching [OF h', of "''gpt-4''" "date_now scenario_env" Map.empty "''Hello''"] none
    by blast
  show ?thesis
    using sorted chosen s f later denied by simp
qed

subsection \<open>Malformed subscription entries\<close>

text \<open>On well-formed elements neither the comparator nor the scan throws, the sort returns
  a permutation, and the scan returns the first element that is active at the reading of the
  clock at which it is examined.\<close>

lemma read_prop_object: "e \<noteq> JNull \<Longrightarrow> read_prop (Val e) k = Normal (get_prop e k)"
  by (simp add: read_prop_def)












text \<open>On a typed verifier result, step 3 over JSON values is step 3 of the handler.\<close>

lemma get_prop_encode_entry:
  "get_prop (encode_entry e) ''product_id'' = (case product_id e of None \<Rightarrow> Undefined | Some s \<Rightarrow> Val (JStr s))"
  "get_prop (encode_entry e) ''expires_date_ms'' = (case expires_date_ms e of None \<Rightarrow> Undefined | Some s \<Rightarrow> Val (JStr s))"
  "get_prop (encode_entry e) ''purchase_date_ms'' = (case purchase_date_ms e of None \<Rightarrow> Undefined | Some s \<Rightarrow> Val (JStr s))"
  by (simp_all add: encode_entry_def field_def split: option.splits)

lemma parseInt_value_field:
  "parseInt_value (case v of None \<Rightarrow> Undefined | Some s \<Rightarrow> Val (JStr s)) = Normal (parseInt v)"
  by (simp add: parseInt_value_def parseInt_def split: option.splits)

lemma encode_entry_not_null: "encode_entry e \<noteq> JNull"
  by (simp add: encode_entry_def)

lemma compare_entries_encode:
  "compare_entries (encode_entry a) (encode_entry b) = Normal (compare_purchase a b)"
  by (simp add: compare_entries_def compare_purchase_def read_prop_object encode_entry_not_null
      get_prop_encode_entry parseInt_value_field)

lemma insert_entry_encode:
  "insert_entry (encode_entry x) (map encode_entry ys) =
     Normal (map encode_entry (insert_by compare_purchase x ys))"
  by (induction ys) (simp_all add: compare_entries_encode sort_order_def)

lemma sort_entries_encode:
  "sort_entries (map encode_entry es) = Normal (map encode_entry (array_sort compare_purchase es))"
  by (induction es) (simp_all add: array_sort_def insert_entry_encode)

lemma product_id_encode:
  "(get_prop (encode_entry e) ''product_id'' = Val (JStr productID)) = (product_id e = Some productID)"
  by (simp add: get_prop_encode_entry split: option.splits)

lemma scan_entries_encode:
  "scan_entries productID now k (map encode_entry es) =
     Normal (map_option encode_entry (scan productID now k es))"
proof (induction es arbitrary: k)
  case Nil
  then show ?case by simp
next
  case (Cons e es)
  have p: "parseInt_value (get_prop (encode_entry e) ''expires_date_ms'') = Normal (parseInt (expires_date_ms e))"
    by (simp add: get_prop_encode_entry parseInt_value_field)
  show ?case
    by (simp add: read_prop_object encode_entry_not_null product_id_encode p Cons
        split: option.splits)
qed

lemma match_result_encode:
  "match_result model now (Val (encode_result info)) =
     Normal (map_option encode_entry (match_entitlement model now info))"
  by (cases info)
     (simp_all add: match_result_def match_entitlement_def encode_result_def read_prop_def
        sort_entries_encode scan_entries_encode Let_def array_sort_def)


lemma entitlement_stage_encode:
  "entitlement_stage model now (Val (encode_result info)) =
     (case match_entitlement model now info of
        None \<Rightarrow> Inl (error_response 403 ''No active subscription for requested model.'')
      | Some e \<Rightarrow> Inr (encode_entry e))"
  by (simp add: entitlement_stage_def match_result_encode encode_entry_def split: option.splits)




subsection \<open>Counts never decrease\<close>

lemma counts_kept_refl: "counts_kept t t"
  by (auto simp: counts_kept_def split: option.splits)

lemma counts_kept_trans: "counts_kept t t' \<Longrightarrow> counts_kept t' t'' \<Longrightarrow> counts_kept t t''"
  unfolding counts_kept_def
proof (intro allI impI)
  fix i u
  assume a: "\<forall>i u. t i = Some u \<longrightarrow>
        (\<exists>u'. t' i = Some u' \<and>
           (\<forall>m. case u m of None \<Rightarrow> u' m = None | Some c \<Rightarrow> (\<exists>c'. u' m = Some c' \<and> c \<le> c')))"
    and b: "\<forall>i u. t' i = Some u \<longrightarrow>
        (\<exists>u'. t'' i = Some u' \<and>
           (\<forall>m. case u m of None \<Rightarrow> u' m = None | Some c \<Rightarrow> (\<exists>c'. u' m = Some c' \<and> c \<le> c')))"
    and t: "t i = Some u"
  from a t obtain u' where u': "t' i = Some u'"
    "\<forall>m. case u m of None \<Rightarrow> u' m = None | Some c \<Rightarrow> (\<exists>c'. u' m = Some c' \<and> c \<le> c')"
    by blast
  from b u'(1) obtain u'' where u'': "t'' i = Some u''"
    "\<forall>m. case u' m of None \<Rightarrow> u'' m = None | Some c \<Rightarrow> (\<exists>c'. u'' m = Some c' \<and> c \<le> c')"
    by blast
  have "case u m of None \<Rightarrow> u'' m = None | Some c \<Rightarrow> (\<exists>c'. u'' m = Some c' \<and> c \<le> c')" for m
    using u'(2) [rule_format, of m] u''(2) [rule_format, of m]
    by (auto split: option.splits)
  then show "\<exists>u'. t'' i = Some u' \<and>
           (\<forall>m. case u m of None \<Rightarrow> u' m = None | Some c \<Rightarrow> (\<exists>c'. u' m = Some c' \<and> c \<le> c'))"
    using u''(1) by blast
qed

lemma store_step_kept: "store_step t t' \<Longrightarrow> counts_kept t t'"
  by (auto simp: store_step_def counts_kept_def split: option.splits)

lemma on_verified_store:
  "on_verified now t prompt model outcome = (t', p', evs) \<Longrightarrow> store_step t t'"
  using ensure_record_cases [of t]
  by (auto simp: on_verified_def quota_stage_eq store_step_def Let_def
      split: verify_outcome.splits option.splits if_splits)

lemma on_json_store:
  "on_json t i m parsed = (t', p', evs) \<Longrightarrow> store_step t t'"
  using on_json_cases [of t i m parsed]
  by (auto simp: store_step_def)

lemma resume_store:
  assumes "resume w t p = (t', p', evs)"
  shows "store_step t t'"
proof (cases p)
  case (Received reqBody)
  then show ?thesis using assms by (auto simp: store_step_def split: prod.splits)
next
  case (AwaitVerify receipt prompt model)
  then show ?thesis using assms on_verified_store by simp
next
  case (AwaitFetch i m prompt)
  then show ?thesis using assms by (simp add: store_step_def)
next
  case (AwaitText resolves)
  then show ?thesis using assms by (simp add: store_step_def)
next
  case (AwaitJson i m parsed)
  then show ?thesis using assms on_json_store by simp
next
  case (Responded r)
  then show ?thesis using assms by (simp add: store_step_def)
qed

lemma run_alone_kept: "run_alone n w (t, p, evs) = (t', p', evs') \<Longrightarrow> counts_kept t t'"
proof (induction n arbitrary: t p evs)
  case 0
  then show ?case by (simp add: counts_kept_refl)
next
  case (Suc n)
  obtain t1 p1 e1 where r: "resume w t p = (t1, p1, e1)"
    by (cases "resume w t p") auto
  have "counts_kept t t1"
    using resume_store [OF r] by (rule store_step_kept)
  moreover have "counts_kept t1 t'"
    using Suc.IH [of t1 p1 "evs @ e1"] Suc.prems r by simp
  ultimately show ?case by (rule counts_kept_trans)
qed

lemma run_schedule_kept:
  "run_schedule ws sched (t, ps, log) = (t', ps', log') \<Longrightarrow> counts_kept t t'"
proof (induction sched arbitrary: t ps log)
  case Nil
  then show ?case by (simp add: counts_kept_refl)
next
  case (Cons i sched)
  show ?case
  proof (cases "i < length ps \<and> i < length ws")
    case True
    obtain t1 p1 e1 where r: "resume (ws ! i) t (ps ! i) = (t1, p1, e1)"
      by (cases "resume (ws ! i) t (ps ! i)") auto
    have "counts_kept t t1"
      using resume_store [OF r] by (rule store_step_kept)
    moreover have "counts_kept t1 t'"
      using Cons.IH [of t1 "ps[i := p1]" "log @ map (Pair i) e1"] Cons.prems r True by simp
    ultimately show ?thesis by (rule counts_kept_trans)
  next
    case False
    then show ?thesis using Cons.IH [of t ps log] Cons.prems by auto
  qed
qed

text \<open>
  C8. A segment of a request leaves the tracker as it is, creates a record with zero counts
  for a subscriber that had none, or increments one count of one record by one. Hence over
  any schedule of segments of any requests, and over a request handled alone, every record
  stays in the tracker and none of its counts gets smaller.
\<close>

theorem usage_never_decreases:
  "(resume w t p = (t1, p1, evs) \<longrightarrow>
      t1 = t
      \<or> (\<exists>i. t i = None \<and> t1 = t(i \<mapsto> zero_usage))
      \<or> (\<exists>i m u. t i = Some u \<and> t1 = t(i \<mapsto> u(m := map_option (\<lambda>c. c + 1) (u m)))))
   \<and> (run_schedule ws sched (t, ps, log) = (t', ps', log') \<longrightarrow>
        (\<forall>i u. t i = Some u \<longrightarrow>
           (\<exists>u'. t' i = Some u' \<and>
              (\<forall>m c. u m = Some c \<longrightarrow> (\<exists>c'. u' m = Some c' \<and> c \<le> c')))))
   \<and> (\<forall>i u. t i = Some u \<longrightarrow>
           (\<exists>u'. chat_tracker w t reqBody i = Some u' \<and>
              (\<forall>m c. u m = Some c \<longrightarrow> (\<exists>c'. u' m = Some c' \<and> c \<le> c'))))"
proof -
  have a: "t1 = t
      \<or> (\<exists>i. t i = None \<and> t1 = t(i \<mapsto> zero_usage))
      \<or> (\<exists>i m u. t i = Some u \<and> t1 = t(i \<mapsto> u(m := map_option (\<lambda>c. c + 1) (u m))))"
    if "resume w t p = (t1, p1, evs)"
    using resume_store [OF that] by (simp add: store_step_def)
  have k: "\<forall>i u. t i = Some u \<longrightarrow>
           (\<exists>u'. t2 i = Some u' \<and>
              (\<forall>m c. u m = Some c \<longrightarrow> (\<exists>c'. u' m = Some c' \<and> c \<le> c')))"
    if ck: "counts_kept t t2" for t2
  proof (intro allI impI)
    fix i u
    assume "t i = Some u"
    then obtain u' where u': "t2 i = Some u'"
      "\<forall>m. case u m of None \<Rightarrow> u' m = None | Some c \<Rightarrow> (\<exists>c'. u' m = Some c' \<and> c \<le> c')"
      using ck unfolding counts_kept_def by blast
    have "\<exists>c'. u' m = Some c' \<and> c \<le> c'" if "u m = Some c" for m c
      using u'(2) [rule_format, of m] that by simp
    then show "\<exists>u'. t2 i = Some u' \<and>
              (\<forall>m c. u m = Some c \<longrightarrow> (\<exists>c'. u' m = Some c' \<and> c \<le> c'))"
      using u'(1) by blast
  qed
  have b: "\<forall>i u. t i = Some u \<longrightarrow>
           (\<exists>u'. t' i = Some u' \<and>
              (\<forall>m c. u m = Some c \<longrightarrow> (\<exists>c'. u' m = Some c' \<and> c \<le> c')))"
    if "run_schedule ws sched (t, ps, log) = (t', ps', log')"
    using k [OF run_schedule_kept [OF that]] .
  have "counts_kept t (chat_tracker w t reqBody)"
    using run_alone_kept [of 4 w t "Received reqBody" "[]"]
    by (cases "chat w t reqBody") (auto simp: chat_tracker_def chat_def)
  then show ?thesis
    using a b k by blast
qed

subsection \<open>Concurrent requests\<close>

lemma map_option_add:
  "map_option (\<lambda>c. c + a) (map_option (\<lambda>c. c + b) x) = map_option (\<lambda>c::int. c + (b + a)) x"
  by (cases x) auto

lemma store_step_count:
  assumes "on_json t i0 m0 parsed = (t', p', evs)"
  shows "current_count t' i m =
           map_option (\<lambda>c. c + int (count_list evs (UsageCommitted i m))) (current_count t i m)"
proof -
  consider (fail) r where "on_json t i0 m0 parsed = (t, Responded r, [])"
    | (commit) reply u where "t i0 = Some u"
        "on_json t i0 m0 parsed =
           (t(i0 \<mapsto> u(m0 := map_option (\<lambda>c. c + 1) (u m0))), Responded (reply_response reply),
            [UsageCommitted i0 m0])"
    using on_json_cases [of t i0 m0 parsed] by blast
  then show ?thesis
  proof cases
    case fail
    then show ?thesis using assms by (simp add: option.map_ident)
  next
    case commit
    have e: "ensure_record t i0 = t"
      using commit(1) by (simp add: ensure_record_def)
    have "ensure_record t i0 i0 = Some u"
      using commit(1) by (simp add: e)
    from current_count_commit [OF this, of m0 i m] show ?thesis
      using assms commit(2) by (auto simp: e option.map_ident)
  qed
qed

lemma on_verified_events:
  "on_verified now t prompt model outcome = (t', p', evs) \<Longrightarrow>
   filter is_commit evs = [] \<and> \<not> answered_ok p'"
  by (auto simp: on_verified_def quota_stage_eq Let_def error_response_def
      split: verify_outcome.splits option.splits if_splits)

lemma on_verified_count:
  assumes "on_verified now t prompt model outcome = (t', p', evs)"
  shows "current_count t' i m = current_count t i m"
  using assms ensure_record_cases [of t] current_count_created [of t _ i m]
  by (auto simp: on_verified_def quota_stage_eq Let_def current_count_ensure
      split: verify_outcome.splits option.splits if_splits)

lemma count_list_no_commit:
  "filter is_commit evs = [] \<Longrightarrow> count_list evs (UsageCommitted i m) = 0"
  by (induction evs) (auto split: if_splits)

lemma resume_count:
  assumes "resume w t p = (t', p', evs)"
  shows "current_count t' i m =
           map_option (\<lambda>c. c + int (count_list evs (UsageCommitted i m))) (current_count t i m)"
proof (cases p)
  case (Received reqBody)
  then show ?thesis
    using assms by (auto simp: on_request_def option.map_ident split: prod.splits validation.splits)
next
  case (AwaitVerify receipt prompt model)
  then have o: "on_verified (date_now w) t prompt model (verifyReceipt w receipt) = (t', p', evs)"
    using assms by simp
  show ?thesis
    using on_verified_count [OF o] count_list_no_commit [of evs i m] on_verified_events [OF o]
    by (simp add: option.map_ident)
next
  case (AwaitFetch i0 m0 prompt)
  then show ?thesis using assms by (auto simp: option.map_ident)
next
  case (AwaitText resolves)
  then show ?thesis using assms by (auto simp: option.map_ident)
next
  case (AwaitJson i0 m0 parsed)
  then show ?thesis using assms store_step_count by simp
next
  case (Responded r)
  then show ?thesis using assms by (auto simp: option.map_ident)
qed

lemma run_schedule_count:
  "run_schedule ws sched (t, ps, log) = (t', ps', log') \<Longrightarrow>
   \<exists>new. log' = log @ new
     \<and> current_count t' i m =
         map_option (\<lambda>c. c + int (count_list (map snd new) (UsageCommitted i m))) (current_count t i m)"
proof (induction sched arbitrary: t ps log)
  case Nil
  then show ?case by (simp add: option.map_ident)
next
  case (Cons r sched)
  show ?case
  proof (cases "r < length ps \<and> r < length ws")
    case True
    obtain t1 p1 e1 where s: "resume (ws ! r) t (ps ! r) = (t1, p1, e1)"
      by (cases "resume (ws ! r) t (ps ! r)") auto
    have "run_schedule ws sched (t1, ps[r := p1], log @ map (Pair r) e1) = (t', ps', log')"
      using Cons.prems s True by simp
    from Cons.IH [OF this] obtain new where new: "log' = (log @ map (Pair r) e1) @ new"
      "current_count t' i m =
         map_option (\<lambda>c. c + int (count_list (map snd new) (UsageCommitted i m))) (current_count t1 i m)"
      by blast
    have "map snd (map (Pair r) e1) = e1"
      by (simp add: comp_def)
    then have "current_count t' i m =
         map_option (\<lambda>c. c + int (count_list (map snd (map (Pair r) e1 @ new)) (UsageCommitted i m)))
           (current_count t i m)"
      using new(2) resume_count [OF s, of i m] by (simp add: map_option_add)
    then show ?thesis using new(1) by auto
  next
    case False
    then show ?thesis using Cons.IH [of t ps log] Cons.prems by auto
  qed
qed

lemma commits_by_append: "commits_by r (log @ new) = commits_by r log + commits_by r new"
  by (simp add: commits_by_def)

lemma commits_by_tagged:
  "commits_by r (map (Pair r') evs) = (if r' = r then length (filter is_commit evs) else 0)"
  by (induction evs) (auto simp: commits_by_def)

lemma validate_not_ok: "validate reqBody = Invalid r \<Longrightarrow> status r \<noteq> 200"
  using validate_Invalid_status [of reqBody r] by auto

lemma resume_commits:
  assumes "resume w t p = (t', p', evs)"
  shows "length (filter is_commit evs) + (if answered_ok p then 1 else 0) =
           (if answered_ok p' then 1 else 0)"
proof (cases p)
  case (Received reqBody)
  then show ?thesis
    using assms validate_not_ok [of reqBody]
    by (auto simp: on_request_def split: prod.splits validation.splits)
next
  case (AwaitVerify receipt prompt model)
  then have o: "on_verified (date_now w) t prompt model (verifyReceipt w receipt) = (t', p', evs)"
    using assms by simp
  show ?thesis
    using on_verified_events [OF o] AwaitVerify by simp
next
  case (AwaitFetch i0 m0 prompt)
  then show ?thesis
    using assms
    by (auto simp: on_fetched_def internal_error_def error_response_def
        split: fetch_outcome.splits if_splits)
next
  case (AwaitText resolves)
  then show ?thesis
    using assms
    by (auto simp: on_text_def internal_error_def error_response_def split: if_splits)
next
  case (AwaitJson i0 m0 parsed)
  then show ?thesis
    using assms on_json_cases [of t i0 m0 parsed]
    by (auto simp: reply_response_def)
next
  case (Responded r)
  then show ?thesis using assms by auto
qed

lemma run_schedule_commits:
  assumes "run_schedule ws sched (t, ps, log) = (t', ps', log')"
    and "\<forall>r<length ps. commits_by r log = (if answered_ok (ps ! r) then 1 else 0)"
  shows "length ps' = length ps
         \<and> (\<forall>r<length ps. commits_by r log' = (if answered_ok (ps' ! r) then 1 else 0))"
  using assms
proof (induction sched arbitrary: t ps log)
  case Nil
  then show ?case by simp
next
  case (Cons i sched)
  show ?case
  proof (cases "i < length ps \<and> i < length ws")
    case True
    obtain t1 p1 e1 where s: "resume (ws ! i) t (ps ! i) = (t1, p1, e1)"
      by (cases "resume (ws ! i) t (ps ! i)") auto
    have run: "run_schedule ws sched (t1, ps[i := p1], log @ map (Pair i) e1) = (t', ps', log')"
      using Cons.prems(1) s True by simp
    have inv: "\<forall>r<length (ps[i := p1]).
             commits_by r (log @ map (Pair i) e1) = (if answered_ok (ps[i := p1] ! r) then 1 else 0)"
    proof (intro allI impI)
      fix r
      assume r: "r < length (ps[i := p1])"
      show "commits_by r (log @ map (Pair i) e1) = (if answered_ok (ps[i := p1] ! r) then 1 else 0)"
      proof (cases "r = i")
        case True
        then show ?thesis
          using resume_commits [OF s] Cons.prems(2) r
          by (auto simp: commits_by_append commits_by_tagged split: if_splits)
      next
        case False
        then show ?thesis
          using Cons.prems(2) r by (simp add: commits_by_append commits_by_tagged)
      qed
    qed
    show ?thesis
      using Cons.IH [OF run inv] by simp
  next
    case False
    then show ?thesis using Cons.IH [of t ps log] Cons.prems by auto
  qed
qed

lemma resume_scenario_received:
  "resume scenario_env t (Received (request_for ''gpt-4'')) =
     (t, AwaitVerify ''cmVjZWlwdA=='' ''Hello'' ''gpt-4'', [VerifyCalled ''cmVjZWlwdA==''])"
  by (simp add: on_request_def validate_gpt4)

lemma resume_scenario_verified:
  assumes "u ''gpt-4'' = Some c" and "c < 800"
  shows "resume scenario_env (t(Some ''T1'' \<mapsto> u)) (AwaitVerify ''cmVjZWlwdA=='' ''Hello'' ''gpt-4'') =
     (t(Some ''T1'' \<mapsto> u), AwaitFetch (Some ''T1'') ''gpt-4'' ''Hello'',
      [QuotaRead (Some ''T1'') ''gpt-4'' (Some c), CompletionCalled ''gpt-4'' ''Hello''])"
proof -
  have v: "verifyReceipt scenario_env ''cmVjZWlwdA=='' = VerifyReturns (Some [cheap_entry, premium_entry])"
    by (simp add: scenario_env_def)
  have i: "original_transaction_id premium_entry = Some ''T1''"
    by (simp add: premium_entry_def)
  have c: "current_count (t(Some ''T1'' \<mapsto> u)) (Some ''T1'') ''gpt-4'' = Some c"
    using assms(1) by (simp add: current_count_def ensure_record_def)
  show ?thesis
    using assms(2)
    by (simp add: on_verified_def v match_scenario_premium quota_stage_eq i c Let_def
        quotas_def js_ge_def trim_Hello ensure_record_def)
qed

lemma resume_scenario_fetched:
  "resume scenario_env t (AwaitFetch i ''gpt-4'' ''Hello'') =
     (t, AwaitJson i ''gpt-4'' (Some hi_there), [])"
  by (simp add: on_fetched_def scenario_env_def)

lemma resume_scenario_json:
  "resume w (t(Some ''T1'' \<mapsto> u)) (AwaitJson (Some ''T1'') ''gpt-4'' (Some hi_there)) =
     (t(Some ''T1'' \<mapsto> u(''gpt-4'' := map_option (\<lambda>c. c + 1) (u ''gpt-4''))),
      Responded (reply_response ''Hi there''), [UsageCommitted (Some ''T1'') ''gpt-4''])"
  by (simp add: on_json_def extract_reply_cases first_choice_content_hi_there trim_Hello
      increment_def)

lemma race_eq:
  "race =
     ([Some ''T1'' \<mapsto> zero_usage(''gpt-4'' := Some 801)],
      [Responded (reply_response ''Hi there''), Responded (reply_response ''Hi there'')],
      [(0, VerifyCalled ''cmVjZWlwdA==''),
       (0, QuotaRead (Some ''T1'') ''gpt-4'' (Some 799)),
       (0, CompletionCalled ''gpt-4'' ''Hello''),
       (1, VerifyCalled ''cmVjZWlwdA==''),
       (1, QuotaRead (Some ''T1'') ''gpt-4'' (Some 799)),
       (1, CompletionCalled ''gpt-4'' ''Hello''),
       (0, UsageCommitted (Some ''T1'') ''gpt-4''),
       (1, UsageCommitted (Some ''T1'') ''gpt-4'')])"
  by (simp add: race_def nearly_exhausted_tracker_def resume_scenario_received
      resume_scenario_verified resume_scenario_fetched resume_scenario_json del: resume.simps)

theorem usage_never_decreases_witness:
  "(\<exists>u'. fst race (Some ''T1'') = Some u' \<and> (\<exists>c'. u' ''gpt-4'' = Some c' \<and> 799 \<le> c'))
   \<and> (\<exists>u'. chat_tracker scenario_env nearly_exhausted_tracker (request_for ''gpt-4'') (Some ''T1'')
              = Some u' \<and> (\<exists>c'. u' ''gpt-4'' = Some c' \<and> 799 \<le> c'))"
proof -
  have r: "run_schedule [scenario_env, scenario_env] [0, 0, 1, 1, 0, 0, 1, 1]
            (nearly_exhausted_tracker,
             [Received (request_for ''gpt-4''), Received (request_for ''gpt-4'')], []) =
           (fst race, fst (snd race), snd (snd race))"
    by (simp add: race_def)
  have s: "resume scenario_env nearly_exhausted_tracker (Received (request_for ''gpt-4'')) =
             (nearly_exhausted_tracker, AwaitVerify ''cmVjZWlwdA=='' ''Hello'' ''gpt-4'',
              [VerifyCalled ''cmVjZWlwdA==''])"
    by (rule resume_scenario_received)
  have t: "nearly_exhausted_tracker (Some ''T1'') = Some (zero_usage(''gpt-4'' := Some 799))"
    by (simp add: nearly_exhausted_tracker_def)
  have c: "(zero_usage(''gpt-4'' := Some 799)) ''gpt-4'' = Some 799"
    by simp
  note inst = usage_never_decreases [where t = nearly_exhausted_tracker
        and ws = "[scenario_env, scenario_env]" and sched = "[0, 0, 1, 1, 0, 0, 1, 1]"
        and ps = "[Received (request_for ''gpt-4''), Received (request_for ''gpt-4'')]"
        and log = "[]" and t' = "fst race" and ps' = "fst (snd race)" and log' = "snd (snd race)"
        and w = scenario_env and p = "Received (request_for ''gpt-4'')"
        and ?t1.0 = nearly_exhausted_tracker
        and ?p1.0 = "AwaitVerify ''cmVjZWlwdA=='' ''Hello'' ''gpt-4''"
        and evs = "[VerifyCalled ''cmVjZWlwdA=='']" and reqBody = "request_for ''gpt-4''"]
  have a: "\<exists>u'. fst race (Some ''T1'') = Some u' \<and>
              (\<forall>m c. (zero_usage(''gpt-4'' := Some 799)) m = Some c \<longrightarrow> (\<exists>c'. u' m = Some c' \<and> c \<le> c'))"
    using inst r s t by blast
  have b: "\<exists>u'. chat_tracker scenario_env nearly_exhausted_tracker (request_for ''gpt-4'') (Some ''T1'')
              = Some u' \<and>
              (\<forall>m c. (zero_usage(''gpt-4'' := Some 799)) m = Some c \<longrightarrow> (\<exists>c'. u' m = Some c' \<and> c \<le> c'))"
    using inst r s t by blast
  show ?thesis
    using a b c by blast
qed

text \<open>
  C9, as the claim states it, fails. Two requests of the same subscriber for the same model
  both read the count 799, below the ceiling 800, before either commits; both are answered
  200 and the count ends at 801: the read and the commit of the first request have the read
  of the second between them.
\<close>

theorem race_exceeds_ceiling:
  "snd (snd race) =
      [(0, VerifyCalled ''cmVjZWlwdA==''),
       (0, QuotaRead (Some ''T1'') ''gpt-4'' (Some 799)),
       (0, CompletionCalled ''gpt-4'' ''Hello''),
       (1, VerifyCalled ''cmVjZWlwdA==''),
       (1, QuotaRead (Some ''T1'') ''gpt-4'' (Some 799)),
       (1, CompletionCalled ''gpt-4'' ''Hello''),
       (0, UsageCommitted (Some ''T1'') ''gpt-4''),
       (1, UsageCommitted (Some ''T1'') ''gpt-4'')]
   \<and> fst (snd race) = [Responded (reply_response ''Hi there''), Responded (reply_response ''Hi there'')]
   \<and> current_count nearly_exhausted_tracker (Some ''T1'') ''gpt-4'' = Some 799
   \<and> current_count (fst race) (Some ''T1'') ''gpt-4'' = Some 801
   \<and> quotas ''gpt-4'' = Some 800"
  by (simp add: race_eq current_count_def ensure_record_def nearly_exhausted_tracker_def quotas_def)

text \<open>
  C9, amended. The quota read and the commit of a request are separate segments, and the
  segments of other requests may run between them (so that, as above, two requests can pass
  the check at the same count and together exceed the ceiling). No call is counted twice or
  lost all the same: in every schedule of requests started afresh, the count of a subscriber
  and a model ends as its initial value plus the number of commits logged for them, and a
  request has exactly one commit in the log if it was answered 200 and none otherwise.
\<close>

theorem commits_counted_once:
  assumes "run_schedule ws sched (t, map Received bodies, []) = (t', ps', log')"
  shows "current_count t' i m =
           map_option (\<lambda>c. c + int (count_list (map snd log') (UsageCommitted i m))) (current_count t i m)
         \<and> (\<forall>r<length bodies. commits_by r log' = (if answered_ok (ps' ! r) then 1 else 0))"
proof -
  have "\<forall>r<length (map Received bodies).
          commits_by r [] = (if answered_ok (map Received bodies ! r) then 1 else 0)"
    by (simp add: commits_by_def)
  from run_schedule_commits [OF assms this] run_schedule_count [OF assms, of i m]
  show ?thesis by simp
qed

theorem commits_counted_once_witness:
  "current_count (fst race) (Some ''T1'') ''gpt-4'' = Some 801
   \<and> commits_by 0 (snd (snd race)) = 1 \<and> commits_by 1 (snd (snd race)) = 1"
proof -
  have r: "run_schedule [scenario_env, scenario_env] [0, 0, 1, 1, 0, 0, 1, 1]
            (nearly_exhausted_tracker,
             map Received [request_for ''gpt-4'', request_for ''gpt-4''], []) =
           (fst race, fst (snd race), snd (snd race))"
    by (simp add: race_def)
  have c: "current_count nearly_exhausted_tracker (Some ''T1'') ''gpt-4'' = Some 799"
    by (simp add: current_count_def ensure_record_def nearly_exhausted_tracker_def)
  have a: "answered_ok (fst (snd race) ! 0)" "answered_ok (fst (snd race) ! 1)"
    by (simp_all add: race_eq reply_response_def)
  have n: "count_list (map snd (snd (snd race))) (UsageCommitted (Some ''T1'') ''gpt-4'') = 2"
    by (simp add: race_eq)
  show ?thesis
    using commits_counted_once [OF r, of "Some ''T1''" "''gpt-4''"] c a n by simp
qed

end
